theory Spec2Isabelle
  imports Main
begin

section \<open>The Caddy WebDAV handler module (webdav.go)\<close>

text \<open>
  The module is a thin adapter around the handler of golang.org/x/net/webdav. Everything
  it calls that is not written in webdav.go (the operating system's file system, the
  library handler, the lock system, path.Dir, the host's response writer) is a parameter
  of the model, collected in the record \<open>env\<close>; the theorems hold for every such
  environment. What webdav.go itself does (the method rewrite, the Depth header, the
  parent-directory creation, the choice of response writer, the error path, the logging
  callback, Provision) is translated statement by statement.
\<close>

subsection \<open>Panics\<close>

text \<open>A Go call either returns or panics (a failed type assertion, a nil pointer).\<close>

datatype 'a outcome = Panic | Returns 'a

subsection \<open>http.Header and http.Request\<close>

text \<open>
  http.Header is \<^verbatim>\<open>map[string][]string\<close>. \<^verbatim>\<open>Get\<close> returns the first value stored
  under the key, or the empty string when the key is absent or has no value;
  \<^verbatim>\<open>Add\<close> appends to the values of the key. Both canonicalise the key they are given;
  the only key of webdav.go, \<^verbatim>\<open>"Depth"\<close>, is canonical already.
\<close>

type_synonym Header = "string \<rightharpoonup> string list"

definition Header_Get :: "Header \<Rightarrow> string \<Rightarrow> string" where
  "Header_Get h key =
     (case h key of
        None \<Rightarrow> []
      | Some vs \<Rightarrow> (case vs of [] \<Rightarrow> [] | v # _ \<Rightarrow> v))"

definition Header_Add :: "Header \<Rightarrow> string \<Rightarrow> string \<Rightarrow> Header" where
  "Header_Add h key v = h(key \<mapsto> (case h key of None \<Rightarrow> [] | Some vs \<Rightarrow> vs) @ [v])"

text \<open>
  The fields of \<^verbatim>\<open>*http.Request\<close> that webdav.go reads or writes. \<open>Replacer\<close> is
  the value stored in the request's context under \<^verbatim>\<open>caddy.ReplacerCtxKey\<close>, given by
  its method \<^verbatim>\<open>ReplaceAll(input, empty)\<close>; \<open>None\<close> when the context holds no
  replacer, where the type assertion of line 86 panics.
\<close>

record Request =
  Method :: string
  URL_Path :: string
  Header :: Header
  Replacer :: "(string \<Rightarrow> string \<Rightarrow> string) option"

record FileInfo =
  IsDir :: bool

subsection \<open>The logger\<close>

datatype Level = ErrorLevel

datatype 'e Field = zap_Error 'e | zap_Object string Request

record 'e Entry =
  Logger_name :: string
  Level :: Level
  Message :: string
  Fields :: "'e Field list"

subsection \<open>Response writers\<close>

text \<open>
  The calls that reach the response writer the host passed to \<^verbatim>\<open>ServeHTTP\<close>, in
  order. \<^verbatim>\<open>http.Error(w, msg, code)\<close> is recorded as one call.
\<close>

datatype wcall =
    W_Header string "string list"
  | W_WriteHeader nat
  | W_Write string
  | W_http_Error string nat

text \<open>
  \<^verbatim>\<open>type emptyBodyResponseWriter struct{ http.ResponseWriter }\<close>: a writer is
  \<open>ResponseWriter\<close>, the writer \<^verbatim>\<open>w\<close> that the host passes to \<^verbatim>\<open>ServeHTTP\<close>,
  or an \<open>emptyBodyResponseWriter\<close> around a writer.
\<close>

datatype writer = ResponseWriter | emptyBodyResponseWriter writer

subsection \<open>The world, the module and its environment\<close>

text \<open>
  \<open>fs\<close> is the state of the file system, \<open>heap\<close> the lock systems allocated so
  far (a \<^verbatim>\<open>webdav.LockSystem\<close> value is an index into it), \<open>sent\<close> the calls
  received by the host's response writer, \<open>logged\<close> the entries written to the logger.
\<close>

record ('fs, 'ls, 'e) world =
  fs :: 'fs
  heap :: "'ls list"
  sent :: "wcall list"
  logged :: "'e Entry list"

record WebDAV =
  Root :: string
  Prefix :: string
  lockSystem :: "nat option"
  logger :: "string option"

text \<open>
  What the library handler does with the writer and the logging callback it is given:
  a tree of calls. After \<^verbatim>\<open>Write\<close> it continues according to the result
  \<^verbatim>\<open>(n, err)\<close> of the call. It ends with the file system and the lock system it
  leaves behind. The tree is finite: the handler is taken to return.
\<close>

datatype ('a, 'e) prog =
    Done 'a
  | Call_Header string "string list" "('a, 'e) prog"
  | Call_WriteHeader nat "('a, 'e) prog"
  | Call_Write string "nat \<times> 'e option \<Rightarrow> ('a, 'e) prog"
  | Call_Logger Request "'e option" "('a, 'e) prog"

text \<open>
  The code outside webdav.go:
  \<^item> \<open>Dir_Stat root name\<close> is \<^verbatim>\<open>webdav.Dir(root).Stat(ctx, name)\<close>;
  \<^item> \<open>os_Stat\<close>, \<open>os_MkdirAll\<close> and \<open>path_Dir\<close> are \<^verbatim>\<open>os.Stat\<close>,
    \<^verbatim>\<open>os.MkdirAll\<close> and \<^verbatim>\<open>path.Dir\<close>; \<open>is_ErrNotExist\<close> is what
    \<^verbatim>\<open>os.IsNotExist\<close> answers for a non-nil error;
  \<^item> \<open>NewMemLS\<close> is the state of a lock system just made by \<^verbatim>\<open>webdav.NewMemLS()\<close>;
  \<^item> \<open>underlying_Write\<close> is the result of \<^verbatim>\<open>Write\<close> on the host's writer;
  \<^item> \<open>webdav_ServeHTTP prefix root r fs ls\<close> is \<^verbatim>\<open>webdav.Handler.ServeHTTP\<close> for the
    fields \<^verbatim>\<open>Prefix\<close> and \<^verbatim>\<open>FileSystem: webdav.Dir(root)\<close>, the request, the file
    system and the state of the lock system (\<open>None\<close> for a nil \<^verbatim>\<open>LockSystem\<close>).
\<close>

record ('fs, 'ls, 'e) env =
  Dir_Stat :: "string \<Rightarrow> string \<Rightarrow> 'fs \<Rightarrow> 'e + FileInfo"
  os_Stat :: "string \<Rightarrow> 'fs \<Rightarrow> 'e + FileInfo"
  is_ErrNotExist :: "'e \<Rightarrow> bool"
  os_MkdirAll :: "string \<Rightarrow> nat \<Rightarrow> 'fs \<Rightarrow> 'e option \<times> 'fs"
  path_Dir :: "string \<Rightarrow> string"
  NewMemLS :: "'ls"
  underlying_Write :: "string \<Rightarrow> wcall list \<Rightarrow> nat \<times> 'e option"
  webdav_ServeHTTP ::
    "string \<Rightarrow> string \<Rightarrow> Request \<Rightarrow> 'fs \<Rightarrow> 'ls option \<Rightarrow> ('fs \<times> 'ls option, 'e) prog"

text \<open>\<^verbatim>\<open>webdav.Handler{Prefix, FileSystem, LockSystem, Logger}\<close>.\<close>

record ('fs, 'ls, 'e) Handler =
  h_Prefix :: string
  h_FileSystem :: string
  h_LockSystem :: "nat option"
  h_Logger :: "Request \<Rightarrow> 'e option \<Rightarrow> ('fs, 'ls, 'e) world \<Rightarrow> ('fs, 'ls, 'e) world outcome"

section \<open>The code\<close>

subsection \<open>Methods of the response writers\<close>

text \<open>
  \<^verbatim>\<open>func (w emptyBodyResponseWriter) Write(data []byte) (int, error) { return 0, nil }\<close>;
  \<^verbatim>\<open>Header\<close> and \<^verbatim>\<open>WriteHeader\<close> are promoted from the embedded writer.
\<close>

fun rw_Write ::
  "('fs, 'ls, 'e) env \<Rightarrow> writer \<Rightarrow> string \<Rightarrow> ('fs, 'ls, 'e) world
     \<Rightarrow> (nat \<times> 'e option) \<times> ('fs, 'ls, 'e) world" where
  "rw_Write env ResponseWriter d s =
     (underlying_Write env d (sent s), s\<lparr>sent := sent s @ [W_Write d]\<rparr>)"
| "rw_Write env (emptyBodyResponseWriter w) d s = ((0, None), s)"

fun rw_WriteHeader :: "writer \<Rightarrow> nat \<Rightarrow> ('fs, 'ls, 'e) world \<Rightarrow> ('fs, 'ls, 'e) world" where
  "rw_WriteHeader ResponseWriter code s = s\<lparr>sent := sent s @ [W_WriteHeader code]\<rparr>"
| "rw_WriteHeader (emptyBodyResponseWriter w) code s = rw_WriteHeader w code s"

fun rw_Header ::
  "writer \<Rightarrow> string \<Rightarrow> string list \<Rightarrow> ('fs, 'ls, 'e) world \<Rightarrow> ('fs, 'ls, 'e) world" where
  "rw_Header ResponseWriter k vs s = s\<lparr>sent := sent s @ [W_Header k vs]\<rparr>"
| "rw_Header (emptyBodyResponseWriter w) k vs s = rw_Header w k vs s"

text \<open>
  \<^verbatim>\<open>http.Error(w, msg, code)\<close>, called at line 128 with the host's writer (the
  writer is wrapped only later, at line 135).
\<close>

definition http_Error :: "string \<Rightarrow> nat \<Rightarrow> ('fs, 'ls, 'e) world \<Rightarrow> ('fs, 'ls, 'e) world" where
  "http_Error msg code s = s\<lparr>sent := sent s @ [W_http_Error msg code]\<rparr>"

subsection \<open>The lock systems\<close>

text \<open>
  The lock system a \<^verbatim>\<open>LockSystem\<close> value points to: none for nil (or for an index
  that was never allocated). The handler changes the lock system in place; it can neither
  allocate one nor free one.
\<close>

definition load :: "'ls list \<Rightarrow> nat option \<Rightarrow> 'ls option" where
  "load h ref =
     (case ref of None \<Rightarrow> None | Some i \<Rightarrow> if i < length h then Some (h ! i) else None)"

definition store :: "'ls list \<Rightarrow> nat option \<Rightarrow> 'ls option \<Rightarrow> 'ls list" where
  "store h ref ls =
     (case ref of
        None \<Rightarrow> h
      | Some i \<Rightarrow> (case ls of None \<Rightarrow> h | Some l \<Rightarrow> h[i := l]))"

subsection \<open>Running the library handler\<close>

text \<open>
  The calls of the handler go to the methods of the writer it was given and to the
  \<^verbatim>\<open>Logger\<close> field of the handler value; a panic of the callback ends the run.
\<close>

primrec run ::
  "('fs, 'ls, 'e) env \<Rightarrow> ('fs, 'ls, 'e) Handler \<Rightarrow> writer \<Rightarrow> ('a, 'e) prog
     \<Rightarrow> ('fs, 'ls, 'e) world \<Rightarrow> ('a \<times> ('fs, 'ls, 'e) world) outcome" where
  "run env h w (Done a) = (\<lambda>s. Returns (a, s))"
| "run env h w (Call_Header k vs p) = (\<lambda>s. run env h w p (rw_Header w k vs s))"
| "run env h w (Call_WriteHeader code p) = (\<lambda>s. run env h w p (rw_WriteHeader w code s))"
| "run env h w (Call_Write d k) =
     (\<lambda>s. case rw_Write env w d s of (res, s') \<Rightarrow> run env h w (k res) s')"
| "run env h w (Call_Logger req err p) =
     (\<lambda>s. case h_Logger h req err s of Panic \<Rightarrow> Panic | Returns s' \<Rightarrow> run env h w p s')"

text \<open>
  \<^verbatim>\<open>wdHandler.ServeHTTP(w, r)\<close> (line 138): the handler starts from the file system
  and from the lock system of its \<^verbatim>\<open>LockSystem\<close> field, and what it leaves is stored
  back.
\<close>

definition Handler_ServeHTTP ::
  "('fs, 'ls, 'e) env \<Rightarrow> ('fs, 'ls, 'e) Handler \<Rightarrow> writer \<Rightarrow> Request
     \<Rightarrow> ('fs, 'ls, 'e) world \<Rightarrow> ('fs, 'ls, 'e) world outcome" where
  "Handler_ServeHTTP env h w r s =
     (case run env h w
             (webdav_ServeHTTP env (h_Prefix h) (h_FileSystem h) r (fs s)
                (load (heap s) (h_LockSystem h))) s of
        Panic \<Rightarrow> Panic
      | Returns res \<Rightarrow>
          (case res of
             ((fs', ls'), s') \<Rightarrow>
               Returns (s'\<lparr>fs := fs', heap := store (heap s') (h_LockSystem h) ls'\<rparr>)))"

subsection \<open>Provision (lines 70 to 79)\<close>

text \<open>
  \<open>ctx_Logger\<close> is the logger \<^verbatim>\<open>ctx.Logger(wd)\<close> returns, given by its name. The
  result is the returned error, the module (Provision has a pointer receiver) and the
  world.
\<close>

definition Provision ::
  "string \<Rightarrow> ('fs, 'ls, 'e) env \<Rightarrow> WebDAV \<Rightarrow> ('fs, 'ls, 'e) world
     \<Rightarrow> 'e option \<times> WebDAV \<times> ('fs, 'ls, 'e) world" where
  "Provision ctx_Logger env wd s =
     (let wd1 = wd\<lparr>logger := Some ctx_Logger\<rparr>;
          wd2 = wd1\<lparr>lockSystem := Some (length (heap s))\<rparr>;
          s' = s\<lparr>heap := heap s @ [NewMemLS env]\<rparr>;
          wd3 = (if Root wd2 = [] then wd2\<lparr>Root := ''{http.vars.root}''\<rparr> else wd2)
      in (None, wd3, s'))"

subsection \<open>ServeHTTP (lines 81 to 141)\<close>

text \<open>The closure passed as \<^verbatim>\<open>Logger\<close> (lines 94 to 101).\<close>

definition Logger ::
  "WebDAV \<Rightarrow> Request \<Rightarrow> 'e option \<Rightarrow> ('fs, 'ls, 'e) world \<Rightarrow> ('fs, 'ls, 'e) world outcome" where
  "Logger wd req err s =
     (case err of
        None \<Rightarrow> Returns s
      | Some e \<Rightarrow>
          (case logger wd of
             None \<Rightarrow> Panic
           | Some lg \<Rightarrow>
               Returns (s\<lparr>logged := logged s @
                 [\<lparr>Logger_name = lg, Level = ErrorLevel, Message = ''internal handler error'',
                   Fields = [zap_Error e, zap_Object ''request'' req]\<rparr>]\<rparr>)))"

text \<open>The handler value built at lines 90 to 102.\<close>

definition wdHandler :: "WebDAV \<Rightarrow> string \<Rightarrow> string \<Rightarrow> ('fs, 'ls, 'e) Handler" where
  "wdHandler wd prefix root =
     \<lparr>h_Prefix = prefix, h_FileSystem = root, h_LockSystem = lockSystem wd,
      h_Logger = Logger wd\<rparr>"

text \<open>
  \<^verbatim>\<open>os.IsNotExist(err)\<close> is false for a nil error; \<open>err_of\<close> is the second
  component of a Go result \<^verbatim>\<open>(value, err)\<close>. 0755 is an octal literal.
\<close>

definition os_IsNotExist :: "('fs, 'ls, 'e) env \<Rightarrow> 'e option \<Rightarrow> bool" where
  "os_IsNotExist env err = (case err of None \<Rightarrow> False | Some e \<Rightarrow> is_ErrNotExist env e)"

definition err_of :: "'e + 'a \<Rightarrow> 'e option" where
  "err_of res = (case res of Inl e \<Rightarrow> Some e | Inr _ \<Rightarrow> None)"

definition perm_0755 :: nat where
  "perm_0755 = 7 * 64 + 5 * 8 + 5"

text \<open>Lines 134 to 140: the choice of the writer, the delegation, \<^verbatim>\<open>return nil\<close>.\<close>

definition delegate ::
  "('fs, 'ls, 'e) env \<Rightarrow> ('fs, 'ls, 'e) Handler \<Rightarrow> writer \<Rightarrow> Request \<Rightarrow> ('fs, 'ls, 'e) world
     \<Rightarrow> ('e option \<times> Request \<times> ('fs, 'ls, 'e) world) outcome" where
  "delegate env h w r s =
     (let w' = (if Method r = ''HEAD'' then emptyBodyResponseWriter w else w)
      in case Handler_ServeHTTP env h w' r s of
           Panic \<Rightarrow> Panic
         | Returns s' \<Rightarrow> Returns (None, r, s'))"

text \<open>
  \<open>ServeHTTP\<close> has a value receiver: the module is read, never changed. The result is
  the returned error, the request as \<open>ServeHTTP\<close> leaves it (it is a pointer: the
  caller sees the rewrite) and the world. \<open>next\<close> is the next middleware handler; the
  writer \<^verbatim>\<open>w\<close> is \<open>ResponseWriter\<close>.
\<close>

definition ServeHTTP ::
  "('fs, 'ls, 'e) env \<Rightarrow> WebDAV \<Rightarrow> Request \<Rightarrow> 'n \<Rightarrow> ('fs, 'ls, 'e) world
     \<Rightarrow> ('e option \<times> Request \<times> ('fs, 'ls, 'e) world) outcome" where
  "ServeHTTP env wd r next s =
     (case Replacer r of
        None \<Rightarrow> Panic
      | Some repl \<Rightarrow>
          (let root = repl (Root wd) ''.'';
               prefix = repl (Prefix wd) '''';
               h = wdHandler wd prefix root
           in
           if Method r = ''GET'' \<or> Method r = ''HEAD'' then
             (case Dir_Stat env root (URL_Path r) (fs s) of
                Inl err \<Rightarrow> delegate env h ResponseWriter r s
              | Inr info \<Rightarrow>
                  if IsDir info then
                    (let r1 = r\<lparr>Method := ''PROPFIND''\<rparr>;
                         r2 = (if Header_Get (Header r1) ''Depth'' = ''''
                               then r1\<lparr>Header := Header_Add (Header r1) ''Depth'' ''1''\<rparr>
                               else r1)
                     in delegate env h ResponseWriter r2 s)
                  else delegate env h ResponseWriter r s)
           else if Method r = ''PUT'' \<or> Method r = ''POST'' then
             (let dirPath = path_Dir env (URL_Path r);
                  err = err_of (os_Stat env (root @ dirPath) (fs s))
              in
              if os_IsNotExist env err then
                (case os_MkdirAll env (root @ dirPath) perm_0755 (fs s) of
                   (None, fs') \<Rightarrow> delegate env h ResponseWriter r (s\<lparr>fs := fs'\<rparr>)
                 | (Some err, fs') \<Rightarrow>
                     (case logger wd of
                        None \<Rightarrow> Panic
                      | Some lg \<Rightarrow>
                          Returns (Some err, r,
                            http_Error ''Error creating directories'' 500
                              (s\<lparr>fs := fs',
                                 logged := logged s @
                                   [\<lparr>Logger_name = lg, Level = ErrorLevel,
                                     Message = ''error creating directories'',
                                     Fields = [zap_Error err]\<rparr>]\<rparr>))))
              else delegate env h ResponseWriter r s)
           else delegate env h ResponseWriter r s))"

subsection \<open>Observations\<close>

text \<open>
  Two worlds look the same to a module whose lock system is \<open>ref\<close> when they agree on
  the file system, the response, the log and the content of that lock system.
\<close>

definition same_view ::
  "nat option \<Rightarrow> ('fs, 'ls, 'e) world \<Rightarrow> ('fs, 'ls, 'e) world \<Rightarrow> bool" where
  "same_view ref s t =
     (fs s = fs t \<and> sent s = sent t \<and> logged s = logged t
      \<and> load (heap s) ref = load (heap t) ref)"

text \<open>The bytes passed to \<^verbatim>\<open>Write\<close> on the host's writer.\<close>

definition body :: "wcall list \<Rightarrow> string" where
  "body cs = concat (map (\<lambda>c. case c of W_Write d \<Rightarrow> d | _ \<Rightarrow> []) cs)"


section \<open>The lock manager\<close>

text \<open>
  webdav.go creates the lock system with \<^verbatim>\<open>webdav.NewMemLS()\<close> (line 73) and hands it to
  the handler; the lock system itself is code of golang.org/x/net/webdav and is not part
  of webdav.go. The definitions of this section follow sections 3 and 4.1 of the
  specification instead. Paths are lists of segments; time is a number read from a clock.
\<close>

text \<open>Modelled from the spec: the depth of a lock (zero = resource only, infinite =
  resource and all descendants); the lock system's code is missing.\<close>

datatype lock_depth = Depth_Zero | Depth_Infinite

text \<open>Modelled from the spec: the scope of a lock (exclusive or shared); the lock
  system's code is missing.\<close>

datatype lock_scope = Exclusive | Shared

text \<open>Modelled from the spec: the typed outcomes of the Lock Manager; the lock system's
  code is missing.\<close>

datatype lock_error = ErrLocked | ErrNoSuchLock

text \<open>Modelled from the spec: the attributes of a Lock (opaque token, root path, depth,
  scope, owner, expiry as an absolute time); the lock system's code is missing.\<close>

record Lock =
  token :: nat
  root_path :: "string list"
  depth :: lock_depth
  scope :: lock_scope
  owner :: string
  expiry :: nat

text \<open>Modelled from the spec: the lock table owned by the Lock Manager, with the counter
  that makes tokens unique; the lock system's code is missing.\<close>

record LockTable =
  locks :: "Lock list"
  next_token :: nat

text \<open>Modelled from the spec: the lock table at server start; the lock system's code is
  missing.\<close>

definition empty_table :: LockTable where
  "empty_table = \<lparr>locks = [], next_token = 0\<rparr>"

text \<open>Modelled from the spec: \<open>ancestor a p\<close> when \<open>p\<close> is a descendant path of
  \<open>a\<close>; the lock system's code is missing.\<close>

fun ancestor :: "string list \<Rightarrow> string list \<Rightarrow> bool" where
  "ancestor [] [] = False"
| "ancestor [] (y # ys) = True"
| "ancestor (x # xs) [] = False"
| "ancestor (x # xs) (y # ys) = (x = y \<and> ancestor xs ys)"

text \<open>Modelled from the spec: passive expiry (a lock whose expiry has passed is treated
  as absent by all queries); the lock system's code is missing.\<close>

definition active :: "nat \<Rightarrow> Lock \<Rightarrow> bool" where
  "active now l = (now \<le> expiry l)"

text \<open>Modelled from the spec: a lock holds on its root path and, with infinite depth, on
  every descendant; the lock system's code is missing.\<close>

definition holds_on :: "Lock \<Rightarrow> string list \<Rightarrow> bool" where
  "holds_on l p = (root_path l = p \<or> (depth l = Depth_Infinite \<and> ancestor (root_path l) p))"

text \<open>Modelled from the spec: an existing lock is in the depth range of a request on
  \<open>p\<close> with depth \<open>d\<close>; the lock system's code is missing.\<close>

definition in_range :: "string list \<Rightarrow> lock_depth \<Rightarrow> Lock \<Rightarrow> bool" where
  "in_range p d l = (root_path l = p \<or> (d = Depth_Infinite \<and> ancestor p (root_path l)))"

text \<open>Modelled from the spec: an existing lock on the path, an ancestor or a descendant
  (per depth semantics) is incompatible with a request when one of the two is exclusive
  (any exclusive lock conflicts with anything; two shared locks never conflict; an
  exclusive request conflicts with any existing lock in its depth range); the lock
  system's code is missing.\<close>

definition incompatible :: "Lock \<Rightarrow> string list \<Rightarrow> lock_depth \<Rightarrow> lock_scope \<Rightarrow> bool" where
  "incompatible l p d sc =
     ((holds_on l p \<or> in_range p d l) \<and> (scope l = Exclusive \<or> sc = Exclusive))"

text \<open>Modelled from the spec: \<^verbatim>\<open>Create(path, depth, scope, owner, timeout)\<close>, which
  returns a token or \<^verbatim>\<open>ErrLocked\<close>; the lock system's code is missing.\<close>

definition Create ::
  "nat \<Rightarrow> string list \<Rightarrow> lock_depth \<Rightarrow> lock_scope \<Rightarrow> string \<Rightarrow> nat \<Rightarrow> LockTable
     \<Rightarrow> (lock_error + nat) \<times> LockTable" where
  "Create now p d sc ow timeout t =
     (if list_ex (\<lambda>l. active now l \<and> incompatible l p d sc) (locks t)
      then (Inl ErrLocked, t)
      else (Inr (next_token t),
            t\<lparr>locks := locks t @
                  [\<lparr>token = next_token t, root_path = p, depth = d, scope = sc, owner = ow,
                    expiry = now + timeout\<rparr>],
              next_token := Suc (next_token t)\<rparr>))"

text \<open>Modelled from the spec: \<^verbatim>\<open>Refresh(token, newTimeout)\<close>, which returns ok or
  \<^verbatim>\<open>ErrNoSuchLock\<close>; the lock system's code is missing.\<close>

definition Refresh ::
  "nat \<Rightarrow> nat \<Rightarrow> nat \<Rightarrow> LockTable \<Rightarrow> (lock_error + unit) \<times> LockTable" where
  "Refresh now tok timeout t =
     (if list_ex (\<lambda>l. active now l \<and> token l = tok) (locks t)
      then (Inr (),
            t\<lparr>locks := map (\<lambda>l. if active now l \<and> token l = tok
                                then l\<lparr>expiry := now + timeout\<rparr> else l) (locks t)\<rparr>)
      else (Inl ErrNoSuchLock, t))"

text \<open>Modelled from the spec: \<^verbatim>\<open>Release(token)\<close>, which returns ok or
  \<^verbatim>\<open>ErrNoSuchLock\<close>; the lock system's code is missing.\<close>

definition Release :: "nat \<Rightarrow> nat \<Rightarrow> LockTable \<Rightarrow> (lock_error + unit) \<times> LockTable" where
  "Release now tok t =
     (if list_ex (\<lambda>l. active now l \<and> token l = tok) (locks t)
      then (Inr (), t\<lparr>locks := filter (\<lambda>l. token l \<noteq> tok) (locks t)\<rparr>)
      else (Inl ErrNoSuchLock, t))"

text \<open>Modelled from the spec: the mutations of the lock table (LOCK, LOCK with a token,
  UNLOCK), each made at a clock reading; the lock system's code is missing.\<close>

datatype lock_op =
    Op_Create "string list" lock_depth lock_scope string nat
  | Op_Refresh nat nat
  | Op_Release nat

text \<open>Modelled from the spec: one mutation, its outcome dropped; the lock system's code
  is missing.\<close>

fun apply_op :: "nat \<Rightarrow> lock_op \<Rightarrow> LockTable \<Rightarrow> LockTable" where
  "apply_op now (Op_Create p d sc ow timeout) t = snd (Create now p d sc ow timeout t)"
| "apply_op now (Op_Refresh tok timeout) t = snd (Refresh now tok timeout t)"
| "apply_op now (Op_Release tok) t = snd (Release now tok t)"

text \<open>Modelled from the spec: the mutations observed in real-time order (the table is
  one mutual-exclusion domain); the lock system's code is missing.\<close>

fun run_ops :: "(nat \<times> lock_op) list \<Rightarrow> LockTable \<Rightarrow> LockTable" where
  "run_ops [] t = t"
| "run_ops ((now, op) # ops) t = run_ops ops (apply_op now op t)"

text \<open>Modelled from the spec: the exclusive locks that hold on a path at a time; the
  lock system's code is missing.\<close>

definition exclusive_holders :: "nat \<Rightarrow> LockTable \<Rightarrow> string list \<Rightarrow> Lock list" where
  "exclusive_holders now t p =
     filter (\<lambda>l. active now l \<and> scope l = Exclusive \<and> holds_on l p) (locks t)"

text \<open>Modelled from the spec: the locks that hold on a path at a time; the lock
  system's code is missing.\<close>

definition holders :: "nat \<Rightarrow> LockTable \<Rightarrow> string list \<Rightarrow> Lock list" where
  "holders now t p = filter (\<lambda>l. active now l \<and> holds_on l p) (locks t)"

text \<open>
  The invariant behind the claim: no two active locks of the table are incompatible.
\<close>

primrec compatible :: "nat \<Rightarrow> Lock list \<Rightarrow> bool" where
  "compatible now [] = True"
| "compatible now (l # ls) =
     ((\<forall>l' \<in> set ls. active now l \<and> active now l' \<longrightarrow>
          \<not> incompatible l (root_path l') (depth l') (scope l'))
      \<and> compatible now ls)"

section \<open>An example environment\<close>

text \<open>
  A small environment on which the theorems below are instantiated: a file system that
  is a list of paths with their nodes, errors that are error numbers, a lock system that
  is the list of the locked names, and a handler that answers PROPFIND, PUT, GET and
  HEAD the way the library does on the happy path and grants a LOCK on a name unless the
  lock system it was started on already holds that name. It stands for no code of
  webdav.go: the general theorems about \<open>ServeHTTP\<close> hold for every environment, and
  the example only gives them concrete inputs.
\<close>

datatype node = Directory | File string

datatype errno = ENOENT | EACCES | ENOTDIR

type_synonym demo_fs = "(string \<times> node) list"

definition demo_Stat :: "string \<Rightarrow> demo_fs \<Rightarrow> errno + FileInfo" where
  "demo_Stat p f =
     (case map_of f p of
        None \<Rightarrow> Inl ENOENT
      | Some n \<Rightarrow> Inr \<lparr>IsDir = (case n of Directory \<Rightarrow> True | File _ \<Rightarrow> False)\<rparr>)"

text \<open>Creating a directory fails below \<^verbatim>\<open>/ro\<close>, which stands for a read-only mount.\<close>

definition demo_MkdirAll :: "string \<Rightarrow> nat \<Rightarrow> demo_fs \<Rightarrow> errno option \<times> demo_fs" where
  "demo_MkdirAll p perm f =
     (if take 3 p = ''/ro'' then (Some EACCES, f) else (None, (p, Directory) # f))"

text \<open>The directory part of a cleaned absolute path.\<close>

definition demo_Dir :: "string \<Rightarrow> string" where
  "demo_Dir p =
     (let d = rev (drop 1 (dropWhile (\<lambda>c. c \<noteq> CHR ''/'') (rev p)))
      in if d = [] then ''/'' else d)"

definition demo_respond ::
  "nat \<Rightarrow> string \<Rightarrow> Request \<Rightarrow> errno option \<Rightarrow> 'a \<Rightarrow> ('a, errno) prog" where
  "demo_respond code b r err a =
     Call_WriteHeader code (Call_Write b (\<lambda>res. Call_Logger r err (Done a)))"

definition demo_webdav ::
  "string \<Rightarrow> string \<Rightarrow> Request \<Rightarrow> demo_fs \<Rightarrow> string list option
     \<Rightarrow> (demo_fs \<times> string list option, errno) prog" where
  "demo_webdav prefix root r f ls =
     (let name = drop (length prefix) (URL_Path r) in
      if Method r = ''PROPFIND'' then
        Call_Header ''Content-Type'' [''text/xml; charset=utf-8'']
          (demo_respond 207 (''<multistatus depth='' @ Header_Get (Header r) ''Depth'' @ ''/>'')
             r None (f, ls))
      else if Method r = ''PUT'' then
        (case map_of f (root @ demo_Dir name) of
           Some Directory \<Rightarrow>
             demo_respond 201 ''Created'' r None ((root @ name, File ''data'') # f, ls)
         | _ \<Rightarrow> demo_respond 409 ''Conflict'' r (Some ENOENT) (f, ls))
      else if Method r = ''LOCK'' then
        (case ls of
           None \<Rightarrow> demo_respond 500 ''Internal Server Error'' r None (f, ls)
         | Some l \<Rightarrow>
             if name \<in> set l then demo_respond 423 ''Locked'' r None (f, ls)
             else demo_respond 200 ''<lockdiscovery/>'' r None (f, Some (name # l)))
      else if Method r = ''GET'' \<or> Method r = ''HEAD'' then
        (case map_of f (root @ name) of
           Some (File d) \<Rightarrow> demo_respond 200 d r None (f, ls)
         | Some Directory \<Rightarrow> demo_respond 405 ''Method Not Allowed'' r None (f, ls)
         | None \<Rightarrow> demo_respond 404 ''Not Found'' r (Some ENOENT) (f, ls))
      else demo_respond 405 ''Method Not Allowed'' r None (f, ls))"

definition demo_env :: "(demo_fs, string list, errno) env" where
  "demo_env =
     \<lparr>Dir_Stat = (\<lambda>root name. demo_Stat (root @ name)),
      os_Stat = demo_Stat,
      is_ErrNotExist = (\<lambda>e. e = ENOENT),
      os_MkdirAll = demo_MkdirAll,
      path_Dir = demo_Dir,
      NewMemLS = [],
      underlying_Write = (\<lambda>d cs. (length d, None)),
      webdav_ServeHTTP = demo_webdav\<rparr>"

text \<open>A replacer with no placeholder to replace, and a request made by the host.\<close>

definition demo_request :: "string \<Rightarrow> string \<Rightarrow> Request" where
  "demo_request m p =
     \<lparr>Method = m, URL_Path = p, Header = Map.empty, Replacer = Some (\<lambda>input empty. input)\<rparr>"

definition demo_wd :: WebDAV where
  "demo_wd = \<lparr>Root = ''/srv'', Prefix = [], lockSystem = Some 0, logger = Some ''webdav''\<rparr>"

definition demo_world :: "(demo_fs, string list, errno) world" where
  "demo_world =
     \<lparr>fs = [(''/srv'', Directory), (''/srv/a'', Directory), (''/srv/a/b.txt'', File ''hello'')],
      heap = [[]], sent = [], logged = []\<rparr>"

text \<open>Three calls on the lock manager of the specification.\<close>

definition demo_ops :: "(nat \<times> lock_op) list" where
  "demo_ops =
     [(0, Op_Create [''a''] Depth_Infinite Exclusive ''alice'' 10),
      (1, Op_Create [''a'', ''b''] Depth_Zero Exclusive ''bob'' 10),
      (2, Op_Create [''c''] Depth_Zero Shared ''carol'' 10)]"

section \<open>Properties\<close>

subsection \<open>Unfolding ServeHTTP by request method\<close>

lemma perm_0755_value: "perm_0755 = 493"
  by (simp add: perm_0755_def)

lemma wdHandler_fields:
  "h_Prefix (wdHandler wd p rt) = p"
  "h_FileSystem (wdHandler wd p rt) = rt"
  "h_LockSystem (wdHandler wd p rt) = lockSystem wd"
  "h_Logger (wdHandler wd p rt) = Logger wd"
  by (simp_all add: wdHandler_def)

lemma ServeHTTP_get_head:
  assumes "Replacer r = Some repl" and "Method r = ''GET'' \<or> Method r = ''HEAD''"
  shows "ServeHTTP env wd r nxt s =
     (let root = repl (Root wd) ''.'';
          h = wdHandler wd (repl (Prefix wd) '''') root
      in case Dir_Stat env root (URL_Path r) (fs s) of
           Inl err \<Rightarrow> delegate env h ResponseWriter r s
         | Inr info \<Rightarrow>
             if IsDir info then
               delegate env h ResponseWriter
                 (r\<lparr>Method := ''PROPFIND'',
                    Header := (if Header_Get (Header r) ''Depth'' = ''''
                               then Header_Add (Header r) ''Depth'' ''1'' else Header r)\<rparr>) s
             else delegate env h ResponseWriter r s)"
  using assms by (simp add: ServeHTTP_def Let_def split: sum.splits)

lemma ServeHTTP_put_post:
  assumes "Replacer r = Some repl" and "Method r = ''PUT'' \<or> Method r = ''POST''"
  shows "ServeHTTP env wd r nxt s =
     (let root = repl (Root wd) ''.'';
          h = wdHandler wd (repl (Prefix wd) '''') root;
          dirPath = path_Dir env (URL_Path r)
      in if os_IsNotExist env (err_of (os_Stat env (root @ dirPath) (fs s))) then
           (case os_MkdirAll env (root @ dirPath) perm_0755 (fs s) of
              (None, fs') \<Rightarrow> delegate env h ResponseWriter r (s\<lparr>fs := fs'\<rparr>)
            | (Some err, fs') \<Rightarrow>
                (case logger wd of
                   None \<Rightarrow> Panic
                 | Some lg \<Rightarrow>
                     Returns (Some err, r,
                       http_Error ''Error creating directories'' 500
                         (s\<lparr>fs := fs',
                            logged := logged s @
                              [\<lparr>Logger_name = lg, Level = ErrorLevel,
                                Message = ''error creating directories'',
                                Fields = [zap_Error err]\<rparr>]\<rparr>))))
         else delegate env h ResponseWriter r s)"
  using assms by (auto simp: ServeHTTP_def Let_def)

lemma ServeHTTP_other:
  assumes "Replacer r = Some repl"
    and "Method r \<noteq> ''GET''" and "Method r \<noteq> ''HEAD''"
    and "Method r \<noteq> ''PUT''" and "Method r \<noteq> ''POST''"
  shows "ServeHTTP env wd r nxt s =
     delegate env (wdHandler wd (repl (Prefix wd) '''') (repl (Root wd) ''.'')) ResponseWriter r s"
  using assms by (simp add: ServeHTTP_def Let_def)

lemma delegate_not_HEAD:
  "Method r \<noteq> ''HEAD'' \<Longrightarrow>
   delegate env h w r s =
     (case Handler_ServeHTTP env h w r s of Panic \<Rightarrow> Panic | Returns s' \<Rightarrow> Returns (None, r, s'))"
  by (simp add: delegate_def)

subsection \<open>What the delegation depends on\<close>

lemma rw_Write_env:
  "underlying_Write env' = underlying_Write env \<Longrightarrow> rw_Write env' w d s = rw_Write env w d s"
  by (cases w) simp_all

lemma run_env:
  "underlying_Write env' = underlying_Write env \<Longrightarrow> run env' h w p s = run env h w p s"
proof (induction p arbitrary: s)
  case (Call_Write d k)
  have "rw_Write env' w d s = rw_Write env w d s"
    using Call_Write.prems by (rule rw_Write_env)
  then show ?case using Call_Write by (simp split: prod.splits)
qed (simp_all split: outcome.splits)

lemma Handler_ServeHTTP_env:
  "underlying_Write env' = underlying_Write env \<Longrightarrow>
   webdav_ServeHTTP env' = webdav_ServeHTTP env \<Longrightarrow>
   Handler_ServeHTTP env' h w r s = Handler_ServeHTTP env h w r s"
proof -
  assume a: "underlying_Write env' = underlying_Write env"
    and b: "webdav_ServeHTTP env' = webdav_ServeHTTP env"
  show ?thesis by (simp only: Handler_ServeHTTP_def b run_env [OF a])
qed

lemma delegate_env:
  "underlying_Write env' = underlying_Write env \<Longrightarrow>
   webdav_ServeHTTP env' = webdav_ServeHTTP env \<Longrightarrow>
   delegate env' h w r s = delegate env h w r s"
proof -
  assume a: "underlying_Write env' = underlying_Write env"
    and b: "webdav_ServeHTTP env' = webdav_ServeHTTP env"
  show ?thesis by (simp only: delegate_def Handler_ServeHTTP_env [OF a b])
qed

subsection \<open>A provisioned module does not panic\<close>

lemma Logger_returns:
  "logger wd = Some lg \<Longrightarrow> \<exists>s'. Logger wd req err s = Returns s'"
  by (simp add: Logger_def split: option.splits)

lemma run_returns:
  assumes "logger wd = Some lg"
  shows "\<exists>a s'. run env (wdHandler wd p rt) w prog s = Returns (a, s')"
proof (induction prog arbitrary: s)
  case (Call_Logger req err prog)
  obtain s1 where "Logger wd req err s = Returns s1"
    using Logger_returns [OF assms] by blast
  then show ?case using Call_Logger by (simp add: wdHandler_def)
next
  case (Call_Write d k)
  then show ?case by (simp split: prod.splits)
qed simp_all

lemma Handler_ServeHTTP_returns:
  assumes "logger wd = Some lg"
  shows "\<exists>s'. Handler_ServeHTTP env (wdHandler wd p rt) w r s = Returns s'"
proof -
  have "\<exists>a s1. run env (wdHandler wd p rt) w
       (webdav_ServeHTTP env p rt r (fs s) (load (heap s) (lockSystem wd))) s = Returns (a, s1)"
    by (rule run_returns [OF assms])
  then obtain a s1 where
    "run env (wdHandler wd p rt) w
       (webdav_ServeHTTP env p rt r (fs s) (load (heap s) (lockSystem wd))) s = Returns (a, s1)"
    by (elim exE)
  moreover obtain f l where "a = (f, l)" by (cases a)
  ultimately show ?thesis
    by (simp add: Handler_ServeHTTP_def wdHandler_fields)
qed

lemma delegate_returns:
  assumes "logger wd = Some lg"
  shows "\<exists>r' s'. delegate env (wdHandler wd p rt) w r s = Returns (None, r', s')"
proof -
  have "\<exists>s1. Handler_ServeHTTP env (wdHandler wd p rt)
       (if Method r = ''HEAD'' then emptyBodyResponseWriter w else w) r s = Returns s1"
    by (rule Handler_ServeHTTP_returns [OF assms])
  then obtain s1 where
    "Handler_ServeHTTP env (wdHandler wd p rt)
       (if Method r = ''HEAD'' then emptyBodyResponseWriter w else w) r s = Returns s1"
    by (elim exE)
  then show ?thesis by (simp add: delegate_def)
qed

subsection \<open>The parts of the world a request touches\<close>

lemma rw_Header_frame:
  "fs (rw_Header w k vs s) = fs s \<and> heap (rw_Header w k vs s) = heap s
   \<and> logged (rw_Header w k vs s) = logged s"
  by (induction w) simp_all

lemma rw_Header_sent:
  "sent s = sent t \<Longrightarrow> sent (rw_Header w k vs s) = sent (rw_Header w k vs t)"
  by (induction w) simp_all

lemma rw_WriteHeader_frame:
  "fs (rw_WriteHeader w c s) = fs s \<and> heap (rw_WriteHeader w c s) = heap s
   \<and> logged (rw_WriteHeader w c s) = logged s"
  by (induction w) simp_all

lemma rw_WriteHeader_sent:
  "sent s = sent t \<Longrightarrow> sent (rw_WriteHeader w c s) = sent (rw_WriteHeader w c t)"
  by (induction w) simp_all

lemma rw_Write_frame:
  "fs (snd (rw_Write env w d s)) = fs s \<and> heap (snd (rw_Write env w d s)) = heap s
   \<and> logged (snd (rw_Write env w d s)) = logged s"
  by (cases w) simp_all

lemma rw_Write_sent:
  "sent s = sent t \<Longrightarrow>
   fst (rw_Write env w d s) = fst (rw_Write env w d t)
   \<and> sent (snd (rw_Write env w d s)) = sent (snd (rw_Write env w d t))"
  by (cases w) simp_all

lemma Logger_frame:
  "Logger wd req err s = Returns s' \<Longrightarrow> fs s' = fs s \<and> heap s' = heap s \<and> sent s' = sent s"
  by (auto simp: Logger_def split: option.splits)

lemma Logger_logged:
  "logged s = logged t \<Longrightarrow>
   (Logger wd req err s = Panic \<and> Logger wd req err t = Panic)
   \<or> (\<exists>s' t'. Logger wd req err s = Returns s' \<and> Logger wd req err t = Returns t'
         \<and> logged s' = logged t')"
  by (simp add: Logger_def split: option.splits)

lemma run_frame:
  "run env (wdHandler wd p rt) w prog s = Returns (a, s') \<Longrightarrow> fs s' = fs s \<and> heap s' = heap s"
proof (induction prog arbitrary: s)
  case (Done x)
  then show ?case by simp
next
  case (Call_Header k vs prog)
  then show ?case using rw_Header_frame [of w k vs s] by simp
next
  case (Call_WriteHeader c prog)
  then show ?case using rw_WriteHeader_frame [of w c s] by simp
next
  case (Call_Write d k)
  obtain res s1 where rw: "rw_Write env w d s = (res, s1)" by (cases "rw_Write env w d s")
  have "run env (wdHandler wd p rt) w (k res) s1 = Returns (a, s')"
    using Call_Write.prems rw by simp
  then have "fs s' = fs s1 \<and> heap s' = heap s1"
    by (rule Call_Write.IH [OF rangeI])
  then show ?case using rw_Write_frame [of env w d s] rw by simp
next
  case (Call_Logger req err prog)
  then obtain s1 where lg: "Logger wd req err s = Returns s1"
    by (cases "Logger wd req err s") (simp_all add: wdHandler_fields)
  have "run env (wdHandler wd p rt) w prog s1 = Returns (a, s')"
    using Call_Logger.prems lg by (simp add: wdHandler_fields)
  then have "fs s' = fs s1 \<and> heap s' = heap s1" by (rule Call_Logger.IH)
  then show ?case using Logger_frame [OF lg] by simp
qed

lemma run_sim:
  "sent s = sent t \<Longrightarrow> logged s = logged t \<Longrightarrow>
   (run env (wdHandler wd p rt) w prog s = Panic \<and> run env (wdHandler wd p rt) w prog t = Panic)
   \<or> (\<exists>a s' t'. run env (wdHandler wd p rt) w prog s = Returns (a, s')
          \<and> run env (wdHandler wd p rt) w prog t = Returns (a, t')
          \<and> sent s' = sent t' \<and> logged s' = logged t')"
proof (induction prog arbitrary: s t)
  case (Done x)
  then show ?case by simp
next
  case (Call_Header k vs prog)
  have "sent (rw_Header w k vs s) = sent (rw_Header w k vs t)"
    using Call_Header.prems(1) by (rule rw_Header_sent)
  moreover have "logged (rw_Header w k vs s) = logged (rw_Header w k vs t)"
    using Call_Header.prems(2) rw_Header_frame [of w k vs s] rw_Header_frame [of w k vs t]
    by simp
  ultimately show ?case using Call_Header.IH by simp
next
  case (Call_WriteHeader c prog)
  have "sent (rw_WriteHeader w c s) = sent (rw_WriteHeader w c t)"
    using Call_WriteHeader.prems(1) by (rule rw_WriteHeader_sent)
  moreover have "logged (rw_WriteHeader w c s) = logged (rw_WriteHeader w c t)"
    using Call_WriteHeader.prems(2) rw_WriteHeader_frame [of w c s]
      rw_WriteHeader_frame [of w c t]
    by simp
  ultimately show ?case using Call_WriteHeader.IH by simp
next
  case (Call_Write d k)
  obtain res s1 where rs: "rw_Write env w d s = (res, s1)" by (cases "rw_Write env w d s")
  obtain res' t1 where rt: "rw_Write env w d t = (res', t1)" by (cases "rw_Write env w d t")
  have eq: "res = res'" "sent s1 = sent t1"
    using rw_Write_sent [OF Call_Write.prems(1), of env w d] rs rt by simp_all
  have lg: "logged s1 = logged t1"
    using rw_Write_frame [of env w d s] rw_Write_frame [of env w d t] rs rt Call_Write.prems(2)
    by simp
  show ?case
    using Call_Write.IH [OF rangeI eq(2) lg, of res] rs rt eq(1) by simp
next
  case (Call_Logger req err prog)
  from Logger_logged [OF Call_Logger.prems(2), of wd req err]
  show ?case
  proof
    assume "Logger wd req err s = Panic \<and> Logger wd req err t = Panic"
    then show ?thesis by (simp add: wdHandler_fields)
  next
    assume "\<exists>s' t'. Logger wd req err s = Returns s' \<and> Logger wd req err t = Returns t'
         \<and> logged s' = logged t'"
    then obtain s1 t1 where l: "Logger wd req err s = Returns s1"
      "Logger wd req err t = Returns t1" "logged s1 = logged t1" by blast
    have "sent s1 = sent t1"
      using Logger_frame [OF l(1)] Logger_frame [OF l(2)] Call_Logger.prems(1) by simp
    then show ?thesis
      using Call_Logger.IH [OF _ l(3)] l(1,2) by (simp add: wdHandler_fields)
  qed
qed

lemma load_store:
  "load h ref = load h' ref \<Longrightarrow> load (store h ref l) ref = load (store h' ref l) ref"
  by (auto simp: load_def store_def split: option.splits if_splits)

lemma store_frame:
  "length (store h ref l) = length h \<and> (\<forall>i. Some i \<noteq> ref \<longrightarrow> store h ref l ! i = h ! i)"
  by (auto simp: store_def split: option.splits)

lemma Handler_ServeHTTP_frame:
  assumes "Handler_ServeHTTP env (wdHandler wd p rt) w r s = Returns s'"
  shows "length (heap s') = length (heap s)
         \<and> (\<forall>i. Some i \<noteq> lockSystem wd \<longrightarrow> heap s' ! i = heap s ! i)"
proof -
  let ?prog = "webdav_ServeHTTP env p rt r (fs s) (load (heap s) (lockSystem wd))"
  obtain f l s1 where run: "run env (wdHandler wd p rt) w ?prog s = Returns ((f, l), s1)"
    and s': "s' = s1\<lparr>fs := f, heap := store (heap s1) (lockSystem wd) l\<rparr>"
    using assms
    by (auto simp: Handler_ServeHTTP_def wdHandler_fields split: outcome.splits prod.splits)
  have "heap s1 = heap s" using run_frame [OF run] by simp
  then show ?thesis using s' store_frame [of "heap s" "lockSystem wd" l] by simp
qed

lemma Handler_ServeHTTP_sim:
  assumes "same_view (lockSystem wd) s t"
  shows "(Handler_ServeHTTP env (wdHandler wd p rt) w r s = Panic
          \<and> Handler_ServeHTTP env (wdHandler wd p rt) w r t = Panic)
         \<or> (\<exists>s' t'. Handler_ServeHTTP env (wdHandler wd p rt) w r s = Returns s'
               \<and> Handler_ServeHTTP env (wdHandler wd p rt) w r t = Returns t'
               \<and> same_view (lockSystem wd) s' t')"
proof -
  let ?prog = "webdav_ServeHTTP env p rt r (fs s) (load (heap s) (lockSystem wd))"
  have pt: "webdav_ServeHTTP env p rt r (fs t) (load (heap t) (lockSystem wd)) = ?prog"
    using assms by (simp add: same_view_def)
  have st: "sent s = sent t" "logged s = logged t" "load (heap s) (lockSystem wd) = load (heap t) (lockSystem wd)"
    using assms by (simp_all add: same_view_def)
  from run_sim [OF st(1,2), of env wd p rt w ?prog]
  show ?thesis
  proof
    assume "run env (wdHandler wd p rt) w ?prog s = Panic
            \<and> run env (wdHandler wd p rt) w ?prog t = Panic"
    then show ?thesis by (simp add: Handler_ServeHTTP_def wdHandler_fields pt)
  next
    assume "\<exists>a s' t'. run env (wdHandler wd p rt) w ?prog s = Returns (a, s')
          \<and> run env (wdHandler wd p rt) w ?prog t = Returns (a, t')
          \<and> sent s' = sent t' \<and> logged s' = logged t'"
    then obtain a s1 t1 where r: "run env (wdHandler wd p rt) w ?prog s = Returns (a, s1)"
      "run env (wdHandler wd p rt) w ?prog t = Returns (a, t1)"
      "sent s1 = sent t1" "logged s1 = logged t1" by blast
    obtain f l where a: "a = (f, l)" by (cases a)
    have h: "heap s1 = heap s" "heap t1 = heap t"
      using run_frame [OF r(1)] run_frame [OF r(2)] by simp_all
    have "same_view (lockSystem wd)
            (s1\<lparr>fs := f, heap := store (heap s1) (lockSystem wd) l\<rparr>)
            (t1\<lparr>fs := f, heap := store (heap t1) (lockSystem wd) l\<rparr>)"
      using r(3,4) h load_store [OF st(3), of l] by (simp add: same_view_def)
    then show ?thesis
      using r(1,2) a by (simp add: Handler_ServeHTTP_def wdHandler_fields pt)
  qed
qed

lemma delegate_frame:
  assumes "delegate env (wdHandler wd p rt) w r s = Returns (e, r', s')"
  shows "length (heap s') = length (heap s)
         \<and> (\<forall>i. Some i \<noteq> lockSystem wd \<longrightarrow> heap s' ! i = heap s ! i)"
proof -
  let ?w = "if Method r = ''HEAD'' then emptyBodyResponseWriter w else w"
  have "Handler_ServeHTTP env (wdHandler wd p rt) ?w r s = Returns s'"
    using assms by (auto simp: delegate_def Let_def split: outcome.splits if_splits)
  then show ?thesis by (rule Handler_ServeHTTP_frame)
qed

lemma delegate_sim:
  assumes "same_view (lockSystem wd) s t"
  shows "(delegate env (wdHandler wd p rt) w r s = Panic
          \<and> delegate env (wdHandler wd p rt) w r t = Panic)
         \<or> (\<exists>e r' s' t'. delegate env (wdHandler wd p rt) w r s = Returns (e, r', s')
               \<and> delegate env (wdHandler wd p rt) w r t = Returns (e, r', t')
               \<and> same_view (lockSystem wd) s' t')"
proof -
  let ?w = "if Method r = ''HEAD'' then emptyBodyResponseWriter w else w"
  from Handler_ServeHTTP_sim [OF assms, of env p rt ?w r]
  show ?thesis
    by (auto simp: delegate_def)
qed

lemma ServeHTTP_frame:
  assumes "ServeHTTP env wd r nxt s = Returns (e, r', s')"
  shows "length (heap s') = length (heap s)
         \<and> (\<forall>i. Some i \<noteq> lockSystem wd \<longrightarrow> heap s' ! i = heap s ! i)"
proof -
  obtain repl where rp: "Replacer r = Some repl"
    using assms by (cases "Replacer r") (simp_all add: ServeHTTP_def)
  let ?root = "repl (Root wd) ''.''"
  let ?h = "wdHandler wd (repl (Prefix wd) '''') ?root"
  let ?p = "?root @ path_Dir env (URL_Path r)"
  have d: "delegate env ?h ResponseWriter q t = Returns (e, r', s') \<Longrightarrow>
           length (heap s') = length (heap t)
           \<and> (\<forall>i. Some i \<noteq> lockSystem wd \<longrightarrow> heap s' ! i = heap t ! i)" for q t
    by (rule delegate_frame)
  consider (gh) "Method r = ''GET'' \<or> Method r = ''HEAD''"
    | (pp) "Method r = ''PUT'' \<or> Method r = ''POST''"
    | (ot) "Method r \<noteq> ''GET''" "Method r \<noteq> ''HEAD''" "Method r \<noteq> ''PUT''" "Method r \<noteq> ''POST''"
    by blast
  then show ?thesis
  proof cases
    case gh
    show ?thesis
      using assms d
      by (simp add: ServeHTTP_get_head [OF rp gh] Let_def split: sum.splits if_splits)
  next
    case pp
    show ?thesis
    proof (cases "os_IsNotExist env (err_of (os_Stat env ?p (fs s)))")
      case False
      then show ?thesis
        using assms d by (simp add: ServeHTTP_put_post [OF rp pp] Let_def)
    next
      case True
      obtain e1 f where mk: "os_MkdirAll env ?p perm_0755 (fs s) = (e1, f)"
        by (cases "os_MkdirAll env ?p perm_0755 (fs s)")
      show ?thesis
      proof (cases e1)
        case None
        then have "delegate env ?h ResponseWriter r (s\<lparr>fs := f\<rparr>) = Returns (e, r', s')"
          using assms True mk by (simp add: ServeHTTP_put_post [OF rp pp] Let_def)
        from d [OF this] show ?thesis by simp
      next
        case (Some err)
        then show ?thesis
          using assms True mk
          by (auto simp: ServeHTTP_put_post [OF rp pp] Let_def http_Error_def
              split: option.splits)
      qed
    qed
  next
    case ot
    then show ?thesis
      using assms d by (simp add: ServeHTTP_other [OF rp ot])
  qed
qed

lemma ServeHTTP_sim:
  assumes "same_view (lockSystem wd) s t"
  shows "(ServeHTTP env wd r nxt s = Panic \<and> ServeHTTP env wd r nxt t = Panic)
         \<or> (\<exists>e r' s' t'. ServeHTTP env wd r nxt s = Returns (e, r', s')
               \<and> ServeHTTP env wd r nxt t = Returns (e, r', t')
               \<and> same_view (lockSystem wd) s' t')"
proof (cases "Replacer r")
  case None
  then show ?thesis by (simp add: ServeHTTP_def)
next
  case (Some repl)
  let ?root = "repl (Root wd) ''.''"
  let ?h = "wdHandler wd (repl (Prefix wd) '''') ?root"
  let ?p = "?root @ path_Dir env (URL_Path r)"
  have fst: "fs t = fs s" using assms by (simp add: same_view_def)
  have d: "(delegate env ?h ResponseWriter q s = Panic \<and> delegate env ?h ResponseWriter q t = Panic)
         \<or> (\<exists>e r' s' t'. delegate env ?h ResponseWriter q s = Returns (e, r', s')
               \<and> delegate env ?h ResponseWriter q t = Returns (e, r', t')
               \<and> same_view (lockSystem wd) s' t')" for q
    by (rule delegate_sim [OF assms])
  consider (gh) "Method r = ''GET'' \<or> Method r = ''HEAD''"
    | (pp) "Method r = ''PUT'' \<or> Method r = ''POST''"
    | (ot) "Method r \<noteq> ''GET''" "Method r \<noteq> ''HEAD''" "Method r \<noteq> ''PUT''" "Method r \<noteq> ''POST''"
    by blast
  then show ?thesis
  proof cases
    case gh
    show ?thesis
      using d by (simp add: ServeHTTP_get_head [OF Some gh] Let_def fst split: sum.splits)
  next
    case pp
    show ?thesis
    proof (cases "os_IsNotExist env (err_of (os_Stat env ?p (fs s)))")
      case False
      then show ?thesis
        using d by (simp add: ServeHTTP_put_post [OF Some pp] Let_def fst)
    next
      case True
      obtain e1 f where mk: "os_MkdirAll env ?p perm_0755 (fs s) = (e1, f)"
        by (cases "os_MkdirAll env ?p perm_0755 (fs s)")
      show ?thesis
      proof (cases e1)
        case None
        have "same_view (lockSystem wd) (s\<lparr>fs := f\<rparr>) (t\<lparr>fs := f\<rparr>)"
          using assms by (simp add: same_view_def)
        from delegate_sim [OF this, of env "repl (Prefix wd) ''''" ?root ResponseWriter r]
        show ?thesis
          using True mk None by (simp add: ServeHTTP_put_post [OF Some pp] Let_def fst)
      next
        case (Some err)
        show ?thesis
        proof (cases "logger wd")
          case None
          then show ?thesis
            using True mk Some
            by (simp add: ServeHTTP_put_post [OF \<open>Replacer r = Some repl\<close> pp] Let_def fst)
        next
          case (Some lg)
          then show ?thesis
            using True mk \<open>e1 = Some err\<close> assms
            by (simp add: ServeHTTP_put_post [OF \<open>Replacer r = Some repl\<close> pp] Let_def fst
                http_Error_def same_view_def)
        qed
      qed
    qed
  next
    case ot
    then show ?thesis
      using d by (simp add: ServeHTTP_other [OF Some ot])
  qed
qed

lemma Provision_eq:
  "Provision lgn env wd0 s0 =
     (None,
      wd0\<lparr>Root := (if Root wd0 = [] then ''{http.vars.root}'' else Root wd0),
          lockSystem := Some (length (heap s0)), logger := Some lgn\<rparr>,
      s0\<lparr>heap := heap s0 @ [NewMemLS env]\<rparr>)"
  by (simp add: Provision_def Let_def)

lemma Handler_ServeHTTP_cell:
  assumes "lockSystem wd = Some i" and "i < length (heap s)"
  shows "Handler_ServeHTTP env (wdHandler wd p rt) w r s =
            (case run env (wdHandler wd p rt) w
                    (webdav_ServeHTTP env p rt r (fs s) (Some (heap s ! i))) s of
               Panic \<Rightarrow> Panic
             | Returns res \<Rightarrow>
                 (case res of
                    ((f, l), s') \<Rightarrow>
                      Returns (s'\<lparr>fs := f, heap := store (heap s') (Some i) l\<rparr>)))"
  using assms
  by (simp add: Handler_ServeHTTP_def wdHandler_fields load_def
      split: outcome.splits prod.splits)

subsection \<open>What ServeHTTP does with the module's lock system\<close>

text \<open>
  Wherever \<open>ServeHTTP\<close> delegates (line 138), the handler value it built is started on
  the content of the cell that the \<^verbatim>\<open>lockSystem\<close> field of the module refers to, and
  what the handler leaves is stored back into that cell. The only path that does not
  delegate is the failure of \<^verbatim>\<open>MkdirAll\<close> (lines 126-131), which leaves the store as
  it was.
\<close>

lemma delegate_cell:
  assumes "lockSystem wd = Some i" and "i < length (heap t)"
  shows "delegate env (wdHandler wd p rt) ResponseWriter q t =
     (case run env (wdHandler wd p rt)
             (if Method q = ''HEAD'' then emptyBodyResponseWriter ResponseWriter
              else ResponseWriter)
             (webdav_ServeHTTP env p rt q (fs t) (Some (heap t ! i))) t of
        Panic \<Rightarrow> Panic
      | Returns res \<Rightarrow>
          (case res of
             ((f, l), s') \<Rightarrow>
               Returns (None, q, s'\<lparr>fs := f, heap := store (heap t) (Some i) l\<rparr>)))"
proof -
  let ?w = "if Method q = ''HEAD'' then emptyBodyResponseWriter ResponseWriter
            else ResponseWriter"
  let ?prog = "webdav_ServeHTTP env p rt q (fs t) (Some (heap t ! i))"
  have d: "delegate env (wdHandler wd p rt) ResponseWriter q t =
     (case Handler_ServeHTTP env (wdHandler wd p rt) ?w q t of
        Panic \<Rightarrow> Panic | Returns s' \<Rightarrow> Returns (None, q, s'))"
    by (simp add: delegate_def Let_def)
  note c = Handler_ServeHTTP_cell [OF assms, of env p rt ?w q]
  show ?thesis
  proof (cases "run env (wdHandler wd p rt) ?w ?prog t")
    case Panic
    then show ?thesis unfolding d c by simp
  next
    case (Returns res)
    obtain f l s' where res: "res = ((f, l), s')" by (cases res) auto
    have "heap s' = heap t"
      using run_frame [of env wd p rt ?w ?prog t "(f, l)" s'] Returns res by simp
    then show ?thesis unfolding d c using Returns res by simp
  qed
qed

lemma ServeHTTP_delegates:
  assumes "Replacer r = Some repl"
    and "\<not> ((Method r = ''PUT'' \<or> Method r = ''POST'')
            \<and> os_IsNotExist env (err_of (os_Stat env
                  (repl (Root wd) ''.'' @ path_Dir env (URL_Path r)) (fs s)))
            \<and> fst (os_MkdirAll env
                  (repl (Root wd) ''.'' @ path_Dir env (URL_Path r)) perm_0755 (fs s)) \<noteq> None)"
  shows "\<exists>r' f'.
           (r' = r
              \<or> r' = r\<lparr>Method := ''PROPFIND'',
                       Header := (if Header_Get (Header r) ''Depth'' = ''''
                                  then Header_Add (Header r) ''Depth'' ''1'' else Header r)\<rparr>)
           \<and> (f' = fs s
                \<or> f' = snd (os_MkdirAll env
                     (repl (Root wd) ''.'' @ path_Dir env (URL_Path r)) perm_0755 (fs s)))
           \<and> ServeHTTP env wd r nxt s =
               delegate env (wdHandler wd (repl (Prefix wd) '''') (repl (Root wd) ''.''))
                 ResponseWriter r' (s\<lparr>fs := f'\<rparr>)"
proof -
  let ?h = "wdHandler wd (repl (Prefix wd) '''') (repl (Root wd) ''.'')"
  let ?p = "repl (Root wd) ''.'' @ path_Dir env (URL_Path r)"
  consider (gh) "Method r = ''GET'' \<or> Method r = ''HEAD''"
    | (pp) "Method r = ''PUT'' \<or> Method r = ''POST''"
    | (ot) "Method r \<noteq> ''GET''" "Method r \<noteq> ''HEAD''" "Method r \<noteq> ''PUT''" "Method r \<noteq> ''POST''"
    by blast
  then show ?thesis
  proof cases
    case gh
    let ?r2 = "r\<lparr>Method := ''PROPFIND'',
                 Header := (if Header_Get (Header r) ''Depth'' = ''''
                            then Header_Add (Header r) ''Depth'' ''1'' else Header r)\<rparr>"
    have "ServeHTTP env wd r nxt s = delegate env ?h ResponseWriter r s
          \<or> ServeHTTP env wd r nxt s = delegate env ?h ResponseWriter ?r2 s"
      by (simp add: ServeHTTP_get_head [OF assms(1) gh] Let_def split: sum.splits)
    then show ?thesis
    proof
      assume e: "ServeHTTP env wd r nxt s = delegate env ?h ResponseWriter r s"
      show ?thesis
        by (rule exI [of _ r], rule exI [of _ "fs s"]) (simp add: e)
    next
      assume e: "ServeHTTP env wd r nxt s = delegate env ?h ResponseWriter ?r2 s"
      show ?thesis
        by (rule exI [of _ ?r2], rule exI [of _ "fs s"]) (simp add: e)
    qed
  next
    case pp
    show ?thesis
    proof (cases "os_IsNotExist env (err_of (os_Stat env ?p (fs s)))")
      case False
      then have e: "ServeHTTP env wd r nxt s = delegate env ?h ResponseWriter r s"
        by (simp add: ServeHTTP_put_post [OF assms(1) pp] Let_def)
      show ?thesis
        by (rule exI [of _ r], rule exI [of _ "fs s"]) (simp add: e)
    next
      case True
      obtain e1 f where mk: "os_MkdirAll env ?p perm_0755 (fs s) = (e1, f)"
        by (cases "os_MkdirAll env ?p perm_0755 (fs s)")
      have "e1 = None" using assms(2) pp True mk by simp
      then have e: "ServeHTTP env wd r nxt s = delegate env ?h ResponseWriter r (s\<lparr>fs := f\<rparr>)"
        using True mk by (simp add: ServeHTTP_put_post [OF assms(1) pp] Let_def)
      show ?thesis
        by (rule exI [of _ r], rule exI [of _ f]) (simp add: e mk)
    qed
  next
    case ot
    have e: "ServeHTTP env wd r nxt s = delegate env ?h ResponseWriter r s"
      by (rule ServeHTTP_other [OF assms(1) ot])
    show ?thesis
      by (rule exI [of _ r], rule exI [of _ "fs s"]) (simp add: e)
  qed
qed

lemma ServeHTTP_mkdir_failure_heap:
  assumes "Replacer r = Some repl"
    and "logger wd = Some lg"
    and "(Method r = ''PUT'' \<or> Method r = ''POST'')
            \<and> os_IsNotExist env (err_of (os_Stat env
                  (repl (Root wd) ''.'' @ path_Dir env (URL_Path r)) (fs s)))
            \<and> fst (os_MkdirAll env
                  (repl (Root wd) ''.'' @ path_Dir env (URL_Path r)) perm_0755 (fs s)) \<noteq> None"
  shows "\<exists>e s'. ServeHTTP env wd r nxt s = Returns (Some e, r, s') \<and> heap s' = heap s"
proof -
  let ?p = "repl (Root wd) ''.'' @ path_Dir env (URL_Path r)"
  have pp: "Method r = ''PUT'' \<or> Method r = ''POST''" using assms(3) by blast
  have ne: "os_IsNotExist env (err_of (os_Stat env ?p (fs s)))" using assms(3) by blast
  obtain e1 f where mk: "os_MkdirAll env ?p perm_0755 (fs s) = (e1, f)"
    by (cases "os_MkdirAll env ?p perm_0755 (fs s)")
  then obtain e where e1: "e1 = Some e" using assms(3) by (cases e1) simp_all
  show ?thesis
    using ne mk e1 assms(2)
    by (simp add: ServeHTTP_put_post [OF assms(1) pp] Let_def http_Error_def)
qed

lemma ServeHTTP_cell:
  assumes "lockSystem wd = Some i" and "i < length (heap s)"
    and "Replacer r = Some repl"
    and "\<not> ((Method r = ''PUT'' \<or> Method r = ''POST'')
            \<and> os_IsNotExist env (err_of (os_Stat env
                  (repl (Root wd) ''.'' @ path_Dir env (URL_Path r)) (fs s)))
            \<and> fst (os_MkdirAll env
                  (repl (Root wd) ''.'' @ path_Dir env (URL_Path r)) perm_0755 (fs s)) \<noteq> None)"
  shows "\<exists>r' f'.
           (r' = r
              \<or> r' = r\<lparr>Method := ''PROPFIND'',
                       Header := (if Header_Get (Header r) ''Depth'' = ''''
                                  then Header_Add (Header r) ''Depth'' ''1'' else Header r)\<rparr>)
           \<and> (f' = fs s
                \<or> f' = snd (os_MkdirAll env
                     (repl (Root wd) ''.'' @ path_Dir env (URL_Path r)) perm_0755 (fs s)))
           \<and> ServeHTTP env wd r nxt s =
               (case run env (wdHandler wd (repl (Prefix wd) '''') (repl (Root wd) ''.''))
                       (if Method r' = ''HEAD'' then emptyBodyResponseWriter ResponseWriter
                        else ResponseWriter)
                       (webdav_ServeHTTP env (repl (Prefix wd) '''') (repl (Root wd) ''.'') r' f'
                          (Some (heap s ! i)))
                       (s\<lparr>fs := f'\<rparr>) of
                  Panic \<Rightarrow> Panic
                | Returns res \<Rightarrow>
                    (case res of
                       ((f, l), s') \<Rightarrow>
                         Returns (None, r',
                           s'\<lparr>fs := f, heap := store (heap s) (Some i) l\<rparr>)))"
proof -
  from ServeHTTP_delegates [OF assms(3,4), of nxt]
  obtain r' f' where u: "r' = r
              \<or> r' = r\<lparr>Method := ''PROPFIND'',
                       Header := (if Header_Get (Header r) ''Depth'' = ''''
                                  then Header_Add (Header r) ''Depth'' ''1'' else Header r)\<rparr>"
    and f: "f' = fs s \<or> f' = snd (os_MkdirAll env
                     (repl (Root wd) ''.'' @ path_Dir env (URL_Path r)) perm_0755 (fs s))"
    and d: "ServeHTTP env wd r nxt s =
               delegate env (wdHandler wd (repl (Prefix wd) '''') (repl (Root wd) ''.''))
                 ResponseWriter r' (s\<lparr>fs := f'\<rparr>)"
    by blast
  have i: "i < length (heap (s\<lparr>fs := f'\<rparr>))" using assms(2) by simp
  note c = delegate_cell [OF assms(1) i, of env "repl (Prefix wd) ''''" "repl (Root wd) ''.''" r']
  have "ServeHTTP env wd r nxt s =
               (case run env (wdHandler wd (repl (Prefix wd) '''') (repl (Root wd) ''.''))
                       (if Method r' = ''HEAD'' then emptyBodyResponseWriter ResponseWriter
                        else ResponseWriter)
                       (webdav_ServeHTTP env (repl (Prefix wd) '''') (repl (Root wd) ''.'') r' f'
                          (Some (heap s ! i)))
                       (s\<lparr>fs := f'\<rparr>) of
                  Panic \<Rightarrow> Panic
                | Returns res \<Rightarrow>
                    (case res of
                       ((f, l), s') \<Rightarrow>
                         Returns (None, r',
                           s'\<lparr>fs := f, heap := store (heap s) (Some i) l\<rparr>)))"
    unfolding d c by (simp split: outcome.splits prod.splits)
  then show ?thesis using u f by blast
qed

lemma ServeHTTP_cell_or_failure:
  assumes "lockSystem wd = Some i" and "logger wd = Some lg"
    and "Replacer r = Some repl" and "i < length (heap s)"
  shows "if (Method r = ''PUT'' \<or> Method r = ''POST'')
               \<and> os_IsNotExist env (err_of (os_Stat env
                     (repl (Root wd) ''.'' @ path_Dir env (URL_Path r)) (fs s)))
               \<and> fst (os_MkdirAll env
                     (repl (Root wd) ''.'' @ path_Dir env (URL_Path r)) perm_0755 (fs s)) \<noteq> None
         then \<exists>e s'. ServeHTTP env wd r nxt s = Returns (Some e, r, s') \<and> heap s' = heap s
         else \<exists>r' f'.
               (r' = r
                  \<or> r' = r\<lparr>Method := ''PROPFIND'',
                         Header := (if Header_Get (Header r) ''Depth'' = ''''
                                    then Header_Add (Header r) ''Depth'' ''1''
                                    else Header r)\<rparr>)
               \<and> (f' = fs s
                    \<or> f' = snd (os_MkdirAll env
                         (repl (Root wd) ''.'' @ path_Dir env (URL_Path r)) perm_0755 (fs s)))
               \<and> ServeHTTP env wd r nxt s =
                   (case run env (wdHandler wd (repl (Prefix wd) '''') (repl (Root wd) ''.''))
                           (if Method r' = ''HEAD''
                            then emptyBodyResponseWriter ResponseWriter else ResponseWriter)
                           (webdav_ServeHTTP env (repl (Prefix wd) '''') (repl (Root wd) ''.'')
                              r' f' (Some (heap s ! i)))
                           (s\<lparr>fs := f'\<rparr>) of
                      Panic \<Rightarrow> Panic
                    | Returns res \<Rightarrow>
                        (case res of
                           ((f, l), s') \<Rightarrow>
                             Returns (None, r',
                               s'\<lparr>fs := f, heap := store (heap s) (Some i) l\<rparr>)))"
    (is "if ?fails then _ else _")
proof (cases ?fails)
  case True
  show ?thesis
    unfolding if_P [OF True]
    by (rule ServeHTTP_mkdir_failure_heap [OF assms(3) assms(2) True])
next
  case False
  show ?thesis
    unfolding if_not_P [OF False]
    by (rule ServeHTTP_cell [OF assms(1) assms(4) assms(3) False])
qed

subsection \<open>Evaluating the example environment\<close>

lemmas demo_defs = demo_env_def demo_request_def demo_wd_def demo_world_def demo_webdav_def
  demo_respond_def demo_Dir_def demo_MkdirAll_def demo_Stat_def

lemmas model_defs = ServeHTTP_def delegate_def Handler_ServeHTTP_def wdHandler_def Logger_def
  os_IsNotExist_def err_of_def perm_0755_def load_def store_def http_Error_def Header_Get_def
  Header_Add_def Let_def

section \<open>The claims\<close>

subsection \<open>C1: GET and HEAD on a collection\<close>

text \<open>
  C1, as it holds. For every GET or HEAD request whose URL path the file system's
  \<^verbatim>\<open>Stat\<close> reports as an existing directory, \<open>ServeHTTP\<close> delegates to the WebDAV
  handler a request whose method is PROPFIND, on the host's writer. When
  \<^verbatim>\<open>Header.Get("Depth")\<close> is empty (no Depth header, or one whose first value is the
  empty string) the value \<^verbatim>\<open>"1"\<close> is appended to the Depth header; a Depth header with
  a non-empty first value is kept as it is. When the request carries no Depth header the
  delegated request has exactly \<^verbatim>\<open>Depth: 1\<close>, and the whole call is the call made for
  a PROPFIND request with \<^verbatim>\<open>Depth: 1\<close> on the same path.
\<close>

theorem collection_get_head_becomes_propfind:
  assumes "Replacer r = Some repl"
    and "Method r = ''GET'' \<or> Method r = ''HEAD''"
    and "Dir_Stat env (repl (Root wd) ''.'') (URL_Path r) (fs s) = Inr info"
    and "IsDir info"
  shows "\<exists>r'. ServeHTTP env wd r nxt s =
             (case Handler_ServeHTTP env
                     (wdHandler wd (repl (Prefix wd) '''') (repl (Root wd) ''.'')) ResponseWriter r' s of
                Panic \<Rightarrow> Panic
              | Returns s' \<Rightarrow> Returns (None, r', s'))
           \<and> Method r' = ''PROPFIND'' \<and> URL_Path r' = URL_Path r
           \<and> (Header_Get (Header r) ''Depth'' = '''' \<longrightarrow>
                Header r' = Header_Add (Header r) ''Depth'' ''1'')
           \<and> (Header_Get (Header r) ''Depth'' \<noteq> '''' \<longrightarrow> Header r' = Header r)
           \<and> (Header r ''Depth'' = None \<longrightarrow>
                Header r' = (Header r)(''Depth'' \<mapsto> [''1''])
                \<and> ServeHTTP env wd r nxt s = ServeHTTP env wd r' nxt s)"
proof -
  let ?h = "wdHandler wd (repl (Prefix wd) '''') (repl (Root wd) ''.'')"
  let ?r' = "r\<lparr>Method := ''PROPFIND'',
               Header := (if Header_Get (Header r) ''Depth'' = ''''
                          then Header_Add (Header r) ''Depth'' ''1'' else Header r)\<rparr>"
  have nh: "Method ?r' \<noteq> ''HEAD''" by simp
  have a: "ServeHTTP env wd r nxt s = delegate env ?h ResponseWriter ?r' s"
    using assms(3,4) by (simp add: ServeHTTP_get_head [OF assms(1,2)] Let_def)
  have b: "ServeHTTP env wd ?r' nxt s = delegate env ?h ResponseWriter ?r' s"
    using assms(1) by (intro ServeHTTP_other) simp_all
  have c: "Header r ''Depth'' = None \<Longrightarrow> Header ?r' = (Header r)(''Depth'' \<mapsto> [''1''])"
    by (simp add: Header_Get_def Header_Add_def)
  have e: "ServeHTTP env wd r nxt s =
          (case Handler_ServeHTTP env ?h ResponseWriter ?r' s of
             Panic \<Rightarrow> Panic | Returns s' \<Rightarrow> Returns (None, ?r', s'))"
    unfolding a by (rule delegate_not_HEAD [OF nh])
  have f: "ServeHTTP env wd r nxt s = ServeHTTP env wd ?r' nxt s"
    by (simp only: a b)
  show ?thesis
  proof (intro exI [of _ ?r'] conjI impI)
    show "ServeHTTP env wd r nxt s =
          (case Handler_ServeHTTP env ?h ResponseWriter ?r' s of
             Panic \<Rightarrow> Panic | Returns s' \<Rightarrow> Returns (None, ?r', s'))"
      by (rule e)
    show "Method ?r' = ''PROPFIND''" by simp
    show "URL_Path ?r' = URL_Path r" by simp
    show "Header ?r' = Header_Add (Header r) ''Depth'' ''1''"
      if "Header_Get (Header r) ''Depth'' = ''''" using that by simp
    show "Header ?r' = Header r"
      if "Header_Get (Header r) ''Depth'' \<noteq> ''''" using that by simp
    show "Header ?r' = (Header r)(''Depth'' \<mapsto> [''1''])"
      if "Header r ''Depth'' = None" using that by (rule c)
    show "ServeHTTP env wd r nxt s = ServeHTTP env wd ?r' nxt s"
      by (rule f)
  qed
qed

text \<open>
  GET on the directory \<^verbatim>\<open>/a\<close> of the example, without a Depth header: the handler
  receives PROPFIND with \<^verbatim>\<open>Depth: 1\<close>.
\<close>

theorem collection_get_head_becomes_propfind_witness:
  "Replacer (demo_request ''GET'' ''/a'') = Some (\<lambda>input empty. input)
   \<and> Dir_Stat demo_env ''/srv'' ''/a'' (fs demo_world) = Inr \<lparr>IsDir = True\<rparr>
   \<and> Header (demo_request ''GET'' ''/a'') ''Depth'' = None
   \<and> (\<exists>r'. ServeHTTP demo_env demo_wd (demo_request ''GET'' ''/a'') ()
              demo_world =
             (case Handler_ServeHTTP demo_env (wdHandler demo_wd [] ''/srv'') ResponseWriter r'
                     demo_world of
                Panic \<Rightarrow> Panic
              | Returns s' \<Rightarrow> Returns (None, r', s'))
           \<and> Method r' = ''PROPFIND''
           \<and> Header r' = [''Depth'' \<mapsto> [''1'']]
           \<and> ServeHTTP demo_env demo_wd (demo_request ''GET'' ''/a'') ()
                demo_world =
              ServeHTTP demo_env demo_wd r' () demo_world)"
proof -
  let ?r = "demo_request ''GET'' ''/a''"
  have a: "Replacer ?r = Some (\<lambda>input empty. input)"
    by (simp add: demo_request_def)
  have b: "Method ?r = ''GET'' \<or> Method ?r = ''HEAD''"
    by (simp add: demo_request_def)
  have c: "Dir_Stat demo_env (Root demo_wd) (URL_Path ?r) (fs demo_world)
             = Inr \<lparr>IsDir = True\<rparr>"
    by (simp add: demo_defs)
  have d: "IsDir \<lparr>IsDir = True\<rparr>" by simp
  have n: "Header ?r ''Depth'' = None"
    by (simp add: demo_request_def)
  have pr: "Prefix demo_wd = []" "Root demo_wd = ''/srv''"
    by (simp_all add: demo_wd_def)
  have hd: "(Header ?r)(''Depth'' \<mapsto> [''1'']) = [''Depth'' \<mapsto> [''1'']]"
    by (simp add: demo_request_def)
  have c': "Dir_Stat demo_env ''/srv'' ''/a'' (fs demo_world) = Inr \<lparr>IsDir = True\<rparr>"
    by (simp add: demo_defs)
  from collection_get_head_becomes_propfind [OF a b c d, where nxt = "()"]
  obtain r' where r':
    "ServeHTTP demo_env demo_wd ?r () demo_world =
       (case Handler_ServeHTTP demo_env (wdHandler demo_wd (Prefix demo_wd) (Root demo_wd))
               ResponseWriter r' demo_world of
          Panic \<Rightarrow> Panic
        | Returns s' \<Rightarrow> Returns (None, r', s'))
     \<and> Method r' = ''PROPFIND'' \<and> URL_Path r' = URL_Path ?r
     \<and> (Header_Get (Header ?r) ''Depth'' = '''' \<longrightarrow>
          Header r' = Header_Add (Header ?r) ''Depth'' ''1'')
     \<and> (Header_Get (Header ?r) ''Depth'' \<noteq> '''' \<longrightarrow> Header r' = Header ?r)
     \<and> (Header ?r ''Depth'' = None \<longrightarrow>
          Header r' = (Header ?r)(''Depth'' \<mapsto> [''1''])
          \<and> ServeHTTP demo_env demo_wd ?r () demo_world =
            ServeHTTP demo_env demo_wd r' () demo_world)" ..
  have e1: "ServeHTTP demo_env demo_wd ?r () demo_world =
       (case Handler_ServeHTTP demo_env (wdHandler demo_wd [] ''/srv'') ResponseWriter r'
               demo_world of
          Panic \<Rightarrow> Panic
        | Returns s' \<Rightarrow> Returns (None, r', s'))"
    using r' [THEN conjunct1] by (simp only: pr)
  have e2: "Method r' = ''PROPFIND''"
    by (rule r' [THEN conjunct2, THEN conjunct1])
  have e34: "Header r' = (Header ?r)(''Depth'' \<mapsto> [''1''])
          \<and> ServeHTTP demo_env demo_wd ?r () demo_world =
            ServeHTTP demo_env demo_wd r' () demo_world"
    using r' [THEN conjunct2, THEN conjunct2, THEN conjunct2, THEN conjunct2, THEN conjunct2]
      n by (rule mp)
  have e3: "Header r' = [''Depth'' \<mapsto> [''1'']]"
    using e34 [THEN conjunct1] by (simp only: hd)
  have e4: "ServeHTTP demo_env demo_wd ?r () demo_world =
            ServeHTTP demo_env demo_wd r' () demo_world"
    by (rule e34 [THEN conjunct2])
  show ?thesis
    by (intro conjI exI [of _ r']) (rule a c' n e1 e2 e3 e4)+
qed

text \<open>
  C1 as stated fails where it says that a Depth header already present is kept
  unchanged. A GET on the directory \<^verbatim>\<open>/a\<close> that carries a Depth header with an empty
  value: \<^verbatim>\<open>Get\<close> returns the empty string, so \<^verbatim>\<open>"1"\<close> is appended and the header
  that reaches the handler has the two values \<^verbatim>\<open>""\<close> and \<^verbatim>\<open>"1"\<close>.
\<close>

theorem empty_depth_header_is_changed:
  "Header ((demo_request ''GET'' ''/a'')\<lparr>Header := [''Depth'' \<mapsto> ['''']]\<rparr>) ''Depth'' = Some ['''']
   \<and> ServeHTTP demo_env demo_wd
        ((demo_request ''GET'' ''/a'')\<lparr>Header := [''Depth'' \<mapsto> ['''']]\<rparr>) () demo_world =
     Returns (None,
        (demo_request ''GET'' ''/a'')\<lparr>Method := ''PROPFIND'',
           Header := [''Depth'' \<mapsto> ['''', ''1'']]\<rparr>,
        demo_world\<lparr>sent := [W_Header ''Content-Type'' [''text/xml; charset=utf-8''],
                             W_WriteHeader 207, W_Write ''<multistatus depth=/>'']\<rparr>)"
  by (simp add: demo_defs model_defs)

subsection \<open>C2: HEAD and the response body\<close>

text \<open>
  The writer that suppresses the body does so for every handler: no \<^verbatim>\<open>Write\<close> reaches
  the host's writer, whatever the handler does.
\<close>

lemma rw_Header_body: "body (sent (rw_Header w k vs s)) = body (sent s)"
  by (induction w) (simp_all add: body_def)

lemma rw_WriteHeader_body: "body (sent (rw_WriteHeader w c s)) = body (sent s)"
  by (induction w) (simp_all add: body_def)

lemma emptyBody_run:
  "run env (wdHandler wd p rt) (emptyBodyResponseWriter w) prog s = Returns (a, s') \<Longrightarrow>
   body (sent s') = body (sent s)"
proof (induction prog arbitrary: s)
  case (Done x)
  then show ?case by simp
next
  case (Call_Header k vs prog)
  then have "body (sent s') = body (sent (rw_Header (emptyBodyResponseWriter w) k vs s))"
    by simp
  then show ?case by (simp only: rw_Header_body)
next
  case (Call_WriteHeader c prog)
  then have "body (sent s') = body (sent (rw_WriteHeader (emptyBodyResponseWriter w) c s))"
    by simp
  then show ?case by (simp only: rw_WriteHeader_body)
next
  case (Call_Write d k)
  have "run env (wdHandler wd p rt) (emptyBodyResponseWriter w) (k (0, None)) s
          = Returns (a, s')"
    using Call_Write.prems by simp
  then show ?case by (rule Call_Write.IH [OF rangeI])
next
  case (Call_Logger req err prog)
  then obtain s1 where lg: "Logger wd req err s = Returns s1"
    by (cases "Logger wd req err s") (simp_all add: wdHandler_fields)
  have "run env (wdHandler wd p rt) (emptyBodyResponseWriter w) prog s1 = Returns (a, s')"
    using Call_Logger.prems lg by (simp add: wdHandler_fields)
  then have "body (sent s') = body (sent s1)" by (rule Call_Logger.IH)
  then show ?case using Logger_frame [OF lg] by simp
qed

text \<open>
  For a HEAD request that is not rewritten (the path is no directory, or \<^verbatim>\<open>Stat\<close>
  fails) the body is suppressed.
\<close>

lemma head_not_collection:
  assumes "Replacer r = Some repl"
    and "Method r = ''HEAD''"
    and "Dir_Stat env (repl (Root wd) ''.'') (URL_Path r) (fs s) = Inl err
         \<or> (Dir_Stat env (repl (Root wd) ''.'') (URL_Path r) (fs s) = Inr info
            \<and> \<not> IsDir info)"
    and "ServeHTTP env wd r nxt s = Returns (e, r', s')"
  shows "r' = r \<and> body (sent s') = body (sent s)"
proof -
  let ?h = "wdHandler wd (repl (Prefix wd) '''') (repl (Root wd) ''.'')"
  let ?prog = "webdav_ServeHTTP env (repl (Prefix wd) '''') (repl (Root wd) ''.'') r (fs s)
                 (load (heap s) (lockSystem wd))"
  have gh: "Method r = ''GET'' \<or> Method r = ''HEAD''" using assms(2) by simp
  have "ServeHTTP env wd r nxt s = delegate env ?h ResponseWriter r s"
    using assms(3) by (auto simp: ServeHTTP_get_head [OF assms(1) gh] Let_def)
  then have d: "delegate env ?h ResponseWriter r s = Returns (e, r', s')"
    using assms(4) by simp
  then have h: "Handler_ServeHTTP env ?h (emptyBodyResponseWriter ResponseWriter) r s = Returns s'"
    and r: "r' = r"
    using assms(2) by (auto simp: delegate_def split: outcome.splits)
  obtain f l s1 where run: "run env ?h (emptyBodyResponseWriter ResponseWriter) ?prog s = Returns ((f, l), s1)"
    and s': "s' = s1\<lparr>fs := f, heap := store (heap s1) (lockSystem wd) l\<rparr>"
    using h
    by (auto simp: Handler_ServeHTTP_def wdHandler_fields split: outcome.splits prod.splits)
  have "body (sent s1) = body (sent s)" using run by (rule emptyBody_run)
  then show ?thesis using r s' by simp
qed

text \<open>
  C2 on the code, at a HEAD request for a collection. The method is rewritten to PROPFIND
  at line 114 before line 134 tests it for HEAD, so the handler is given the host's
  writer and its body reaches it: HEAD on the directory \<^verbatim>\<open>/a\<close> of the example sends
  the multistatus body. HEAD on the file \<^verbatim>\<open>/a/b.txt\<close> sends the status only.
\<close>

theorem head_on_collection_sends_body:
  "ServeHTTP demo_env demo_wd (demo_request ''HEAD'' ''/a'') () demo_world =
     Returns (None,
        (demo_request ''HEAD'' ''/a'')\<lparr>Method := ''PROPFIND'', Header := [''Depth'' \<mapsto> [''1'']]\<rparr>,
        demo_world\<lparr>sent := [W_Header ''Content-Type'' [''text/xml; charset=utf-8''],
                             W_WriteHeader 207, W_Write ''<multistatus depth=1/>'']\<rparr>)
   \<and> body [W_Header ''Content-Type'' [''text/xml; charset=utf-8''],
            W_WriteHeader 207, W_Write ''<multistatus depth=1/>''] = ''<multistatus depth=1/>''
   \<and> ServeHTTP demo_env demo_wd (demo_request ''HEAD'' ''/a/b.txt'') () demo_world =
     Returns (None, demo_request ''HEAD'' ''/a/b.txt'', demo_world\<lparr>sent := [W_WriteHeader 200]\<rparr>)"
  by (simp add: demo_defs model_defs body_def)

subsection \<open>C3: missing parent directories on PUT and POST\<close>

text \<open>
  C3. For every PUT or POST request, when \<^verbatim>\<open>os.Stat\<close> of the root followed by the
  directory part of the request path fails with a not-exist error, \<open>ServeHTTP\<close> calls
  \<^verbatim>\<open>os.MkdirAll\<close> on that path with mode 0755, and when that succeeds it delegates the
  unchanged request to the WebDAV handler on the file system \<^verbatim>\<open>MkdirAll\<close> left, and
  returns nil.
\<close>

theorem put_post_missing_parent_is_created:
  assumes "Replacer r = Some repl"
    and "Method r = ''PUT'' \<or> Method r = ''POST''"
    and "os_Stat env (repl (Root wd) ''.'' @ path_Dir env (URL_Path r)) (fs s) = Inl e"
    and "is_ErrNotExist env e"
    and "os_MkdirAll env (repl (Root wd) ''.'' @ path_Dir env (URL_Path r)) perm_0755 (fs s)
           = (None, fs')"
  shows "ServeHTTP env wd r nxt s =
           (case Handler_ServeHTTP env
                   (wdHandler wd (repl (Prefix wd) '''') (repl (Root wd) ''.'')) ResponseWriter r
                   (s\<lparr>fs := fs'\<rparr>) of
              Panic \<Rightarrow> Panic
            | Returns s' \<Rightarrow> Returns (None, r, s'))
         \<and> perm_0755 = 7 * 8 ^ 2 + 5 * 8 + 5"
proof -
  have nh: "Method r \<noteq> ''HEAD''" using assms(2) by auto
  have ne: "os_IsNotExist env
      (err_of (os_Stat env (repl (Root wd) ''.'' @ path_Dir env (URL_Path r)) (fs s)))"
    using assms(3,4) by (simp add: os_IsNotExist_def err_of_def)
  show ?thesis
    using ne assms(5)
    by (simp add: ServeHTTP_put_post [OF assms(1,2)] Let_def delegate_not_HEAD [OF nh]
        perm_0755_def)
qed

text \<open>
  PUT \<^verbatim>\<open>/x/y.txt\<close> on the example, where \<^verbatim>\<open>/srv/x\<close> does not exist: \<^verbatim>\<open>/srv/x\<close> is
  created, then the handler creates the file and answers 201.
\<close>

theorem put_post_missing_parent_is_created_witness:
  "Replacer (demo_request ''PUT'' ''/x/y.txt'') = Some (\<lambda>input empty. input)
   \<and> os_Stat demo_env (''/srv'' @ path_Dir demo_env ''/x/y.txt'') (fs demo_world) = Inl ENOENT
   \<and> is_ErrNotExist demo_env ENOENT
   \<and> os_MkdirAll demo_env ''/srv/x'' perm_0755 (fs demo_world)
       = (None, (''/srv/x'', Directory) # fs demo_world)
   \<and> ServeHTTP demo_env demo_wd (demo_request ''PUT'' ''/x/y.txt'') () demo_world =
       (case Handler_ServeHTTP demo_env (wdHandler demo_wd [] ''/srv'') ResponseWriter
               (demo_request ''PUT'' ''/x/y.txt'')
               (demo_world\<lparr>fs := (''/srv/x'', Directory) # fs demo_world\<rparr>) of
          Panic \<Rightarrow> Panic
        | Returns s' \<Rightarrow> Returns (None, demo_request ''PUT'' ''/x/y.txt'', s'))
   \<and> ServeHTTP demo_env demo_wd (demo_request ''PUT'' ''/x/y.txt'') () demo_world =
       Returns (None, demo_request ''PUT'' ''/x/y.txt'',
         demo_world\<lparr>fs := (''/srv/x/y.txt'', File ''data'') # (''/srv/x'', Directory)
                            # fs demo_world,
                     sent := [W_WriteHeader 201, W_Write ''Created'']\<rparr>)"
proof -
  have a: "Replacer (demo_request ''PUT'' ''/x/y.txt'') = Some (\<lambda>input empty. input)"
    by (simp add: demo_request_def)
  have b: "Method (demo_request ''PUT'' ''/x/y.txt'') = ''PUT''
           \<or> Method (demo_request ''PUT'' ''/x/y.txt'') = ''POST''"
    by (simp add: demo_request_def)
  have c: "os_Stat demo_env ((\<lambda>input empty. input) (Root demo_wd) ''.''
             @ path_Dir demo_env (URL_Path (demo_request ''PUT'' ''/x/y.txt''))) (fs demo_world)
           = Inl ENOENT"
    by (simp add: demo_defs)
  have d: "is_ErrNotExist demo_env ENOENT" by (simp add: demo_env_def)
  have e: "os_MkdirAll demo_env ((\<lambda>input empty. input) (Root demo_wd) ''.''
             @ path_Dir demo_env (URL_Path (demo_request ''PUT'' ''/x/y.txt''))) perm_0755
             (fs demo_world) = (None, (''/srv/x'', Directory) # fs demo_world)"
    by (simp add: demo_defs)
  have f: "ServeHTTP demo_env demo_wd (demo_request ''PUT'' ''/x/y.txt'') ()
             demo_world =
       (case Handler_ServeHTTP demo_env (wdHandler demo_wd [] ''/srv'') ResponseWriter
               (demo_request ''PUT'' ''/x/y.txt'')
               (demo_world\<lparr>fs := (''/srv/x'', Directory) # fs demo_world\<rparr>) of
          Panic \<Rightarrow> Panic
        | Returns s' \<Rightarrow> Returns (None, demo_request ''PUT'' ''/x/y.txt'', s'))"
    using put_post_missing_parent_is_created [OF a b c d e, where nxt = "()"]
    by (simp add: demo_wd_def)
  have g: "(case Handler_ServeHTTP demo_env (wdHandler demo_wd [] ''/srv'') ResponseWriter
               (demo_request ''PUT'' ''/x/y.txt'')
               (demo_world\<lparr>fs := (''/srv/x'', Directory) # fs demo_world\<rparr>) of
          Panic \<Rightarrow> Panic
        | Returns s' \<Rightarrow> Returns (None, demo_request ''PUT'' ''/x/y.txt'', s')) =
       Returns (None, demo_request ''PUT'' ''/x/y.txt'',
         demo_world\<lparr>fs := (''/srv/x/y.txt'', File ''data'') # (''/srv/x'', Directory)
                            # fs demo_world,
                     sent := [W_WriteHeader 201, W_Write ''Created'']\<rparr>)"
    by (simp add: demo_defs model_defs)
  have c': "os_Stat demo_env (''/srv'' @ path_Dir demo_env ''/x/y.txt'') (fs demo_world)
            = Inl ENOENT"
    by (simp add: demo_defs)
  have e': "os_MkdirAll demo_env ''/srv/x'' perm_0755 (fs demo_world)
       = (None, (''/srv/x'', Directory) # fs demo_world)"
    by (simp add: demo_defs)
  show ?thesis
    using a c' d e' f g by simp
qed

subsection \<open>C4: the path prefix\<close>

text \<open>
  In every environment the check for GET and HEAD asks \<^verbatim>\<open>Stat\<close> for the request path
  as it is: when that path does not exist below the root the request is delegated
  unchanged, whatever the prefix is and whatever lies at the path without the prefix.
\<close>

lemma get_head_stat_takes_whole_path:
  assumes "Replacer r = Some repl"
    and "Method r = ''GET'' \<or> Method r = ''HEAD''"
    and "Dir_Stat env (repl (Root wd) ''.'') (URL_Path r) (fs s) = Inl err"
  shows "ServeHTTP env wd r nxt s =
           delegate env (wdHandler wd (repl (Prefix wd) '''') (repl (Root wd) ''.''))
             ResponseWriter r s"
  using assms(3) by (simp add: ServeHTTP_get_head [OF assms(1,2)] Let_def)

text \<open>
  C4 on the code, with the prefix \<^verbatim>\<open>/dav\<close> and the root \<^verbatim>\<open>/srv\<close>. The module hands
  the prefix to the WebDAV handler, which strips it, but its own checks take the request
  path as it is. GET \<^verbatim>\<open>/dav/a\<close>, where \<^verbatim>\<open>/srv/a\<close> is a directory: \<^verbatim>\<open>Stat\<close> is asked
  for \<^verbatim>\<open>/dav/a\<close> below the root, finds nothing, and the request stays a GET. PUT
  \<^verbatim>\<open>/dav/x/y.txt\<close>: the directory made is \<^verbatim>\<open>/srv/dav/x\<close>, not \<^verbatim>\<open>/srv/x\<close>, and the
  handler, which writes to \<^verbatim>\<open>/srv/x/y.txt\<close>, finds no parent.
\<close>

theorem adapter_checks_keep_the_prefix:
  "Dir_Stat demo_env ''/srv'' ''/a'' (fs demo_world) = Inr \<lparr>IsDir = True\<rparr>
   \<and> ServeHTTP demo_env (demo_wd\<lparr>Prefix := ''/dav''\<rparr>)
        (demo_request ''GET'' ''/dav/a'') () demo_world =
       Returns (None, demo_request ''GET'' ''/dav/a'',
         demo_world\<lparr>sent := [W_WriteHeader 405, W_Write ''Method Not Allowed'']\<rparr>)
   \<and> ServeHTTP demo_env (demo_wd\<lparr>Prefix := ''/dav''\<rparr>)
        (demo_request ''PUT'' ''/dav/x/y.txt'') () demo_world =
       Returns (None, demo_request ''PUT'' ''/dav/x/y.txt'',
         demo_world\<lparr>fs := (''/srv/dav/x'', Directory) # fs demo_world,
           sent := [W_WriteHeader 409, W_Write ''Conflict''],
           logged := [\<lparr>Logger_name = ''webdav'', Level = ErrorLevel,
                       Message = ''internal handler error'',
                       Fields = [zap_Error ENOENT,
                         zap_Object ''request'' (demo_request ''PUT'' ''/dav/x/y.txt'')]\<rparr>]\<rparr>)"
  by (simp add: demo_defs model_defs)

subsection \<open>C5: failure to create the parent directories\<close>

text \<open>
  C5. For every PUT or POST request, when the parent directory does not exist and
  \<^verbatim>\<open>os.MkdirAll\<close> fails, \<open>ServeHTTP\<close> logs the error, answers with
  \<^verbatim>\<open>http.Error(w, "Error creating directories", 500)\<close> (a constant message: no path,
  no root, no error text), returns the error, and does not invoke the WebDAV handler: the
  result is the same for every handler.
\<close>

theorem mkdir_failure_answers_500:
  assumes "Replacer r = Some repl"
    and "Method r = ''PUT'' \<or> Method r = ''POST''"
    and "os_Stat env (repl (Root wd) ''.'' @ path_Dir env (URL_Path r)) (fs s) = Inl e"
    and "is_ErrNotExist env e"
    and "os_MkdirAll env (repl (Root wd) ''.'' @ path_Dir env (URL_Path r)) perm_0755 (fs s)
           = (Some err, fs')"
    and "logger wd = Some lg"
  shows "ServeHTTP env wd r nxt s =
           Returns (Some err, r,
             s\<lparr>fs := fs',
               logged := logged s @
                 [\<lparr>Logger_name = lg, Level = ErrorLevel,
                   Message = ''error creating directories'', Fields = [zap_Error err]\<rparr>],
               sent := sent s @ [W_http_Error ''Error creating directories'' 500]\<rparr>)
         \<and> ServeHTTP (env\<lparr>webdav_ServeHTTP := hdl\<rparr>) wd r nxt s = ServeHTTP env wd r nxt s"
proof -
  have ne: "os_IsNotExist env
      (err_of (os_Stat env (repl (Root wd) ''.'' @ path_Dir env (URL_Path r)) (fs s)))"
    using assms(3,4) by (simp add: os_IsNotExist_def err_of_def)
  have ne': "os_IsNotExist (env\<lparr>webdav_ServeHTTP := hdl\<rparr>)
      (err_of (os_Stat (env\<lparr>webdav_ServeHTTP := hdl\<rparr>)
         (repl (Root wd) ''.'' @ path_Dir (env\<lparr>webdav_ServeHTTP := hdl\<rparr>) (URL_Path r)) (fs s)))"
    using ne by (simp add: os_IsNotExist_def split: option.splits)
  have a: "ServeHTTP env wd r nxt s =
           Returns (Some err, r,
             s\<lparr>fs := fs',
               logged := logged s @
                 [\<lparr>Logger_name = lg, Level = ErrorLevel,
                   Message = ''error creating directories'', Fields = [zap_Error err]\<rparr>],
               sent := sent s @ [W_http_Error ''Error creating directories'' 500]\<rparr>)"
    using ne assms(5,6)
    by (simp add: ServeHTTP_put_post [OF assms(1,2)] Let_def http_Error_def)
  have b: "ServeHTTP (env\<lparr>webdav_ServeHTTP := hdl\<rparr>) wd r nxt s =
           Returns (Some err, r,
             s\<lparr>fs := fs',
               logged := logged s @
                 [\<lparr>Logger_name = lg, Level = ErrorLevel,
                   Message = ''error creating directories'', Fields = [zap_Error err]\<rparr>],
               sent := sent s @ [W_http_Error ''Error creating directories'' 500]\<rparr>)"
    using ne' assms(5,6)
    by (simp add: ServeHTTP_put_post [OF assms(1,2)] Let_def http_Error_def)
  show ?thesis by (simp add: a b)
qed

text \<open>PUT \<^verbatim>\<open>/x/y.txt\<close> with the root on the read-only mount of the example.\<close>

theorem mkdir_failure_answers_500_witness:
  "Replacer (demo_request ''PUT'' ''/x/y.txt'') = Some (\<lambda>input empty. input)
   \<and> os_Stat demo_env (''/ro'' @ path_Dir demo_env ''/x/y.txt'') (fs demo_world) = Inl ENOENT
   \<and> os_MkdirAll demo_env ''/ro/x'' perm_0755 (fs demo_world) = (Some EACCES, fs demo_world)
   \<and> logger (demo_wd\<lparr>Root := ''/ro''\<rparr>) = Some ''webdav''
   \<and> ServeHTTP demo_env (demo_wd\<lparr>Root := ''/ro''\<rparr>)
        (demo_request ''PUT'' ''/x/y.txt'') () demo_world =
       Returns (Some EACCES, demo_request ''PUT'' ''/x/y.txt'',
         demo_world\<lparr>logged := [\<lparr>Logger_name = ''webdav'', Level = ErrorLevel,
                         Message = ''error creating directories'',
                         Fields = [zap_Error EACCES]\<rparr>],
                     sent := [W_http_Error ''Error creating directories'' 500]\<rparr>)
   \<and> ServeHTTP (demo_env\<lparr>webdav_ServeHTTP := (\<lambda>p rt r f l. Done ([], None))\<rparr>)
        (demo_wd\<lparr>Root := ''/ro''\<rparr>) (demo_request ''PUT'' ''/x/y.txt'') ()
        demo_world =
      ServeHTTP demo_env (demo_wd\<lparr>Root := ''/ro''\<rparr>)
        (demo_request ''PUT'' ''/x/y.txt'') () demo_world"
proof -
  let ?wd = "demo_wd\<lparr>Root := ''/ro''\<rparr>"
  have a: "Replacer (demo_request ''PUT'' ''/x/y.txt'') = Some (\<lambda>input empty. input)"
    by (simp add: demo_request_def)
  have b: "Method (demo_request ''PUT'' ''/x/y.txt'') = ''PUT''
           \<or> Method (demo_request ''PUT'' ''/x/y.txt'') = ''POST''"
    by (simp add: demo_request_def)
  have c: "os_Stat demo_env ((\<lambda>input empty. input) (Root ?wd) ''.''
             @ path_Dir demo_env (URL_Path (demo_request ''PUT'' ''/x/y.txt''))) (fs demo_world)
           = Inl ENOENT"
    by (simp add: demo_defs)
  have d: "is_ErrNotExist demo_env ENOENT" by (simp add: demo_env_def)
  have e: "os_MkdirAll demo_env ((\<lambda>input empty. input) (Root ?wd) ''.''
             @ path_Dir demo_env (URL_Path (demo_request ''PUT'' ''/x/y.txt''))) perm_0755
             (fs demo_world) = (Some EACCES, fs demo_world)"
    by (simp add: demo_defs)
  have f: "logger ?wd = Some ''webdav''" by (simp add: demo_wd_def)
  have c': "os_Stat demo_env (''/ro'' @ path_Dir demo_env ''/x/y.txt'') (fs demo_world)
            = Inl ENOENT"
    by (simp add: demo_defs)
  have e': "os_MkdirAll demo_env ''/ro/x'' perm_0755 (fs demo_world)
            = (Some EACCES, fs demo_world)"
    by (simp add: demo_defs)
  show ?thesis
    using mkdir_failure_answers_500 [OF a b c d e f, where nxt = "()" and hdl =
        "\<lambda>p rt r f l. Done ([], None)"] a c' e' f
    by (simp add: demo_world_def)
qed

subsection \<open>C6: the logging callback\<close>

text \<open>
  C6. The closure installed as \<^verbatim>\<open>Logger\<close> returns, leaves the file system, the lock
  systems and the response untouched, leaves the whole world untouched when the error is
  nil, and appends exactly one error entry to the log when the error is not nil. (With a
  nil \<^verbatim>\<open>logger\<close>, which Provision excludes, it would panic.)
\<close>

theorem logging_callback_only_logs:
  assumes "logger wd = Some lg"
  shows "\<exists>s'. Logger wd req err s = Returns s'
           \<and> fs s' = fs s \<and> heap s' = heap s \<and> sent s' = sent s
           \<and> (err = None \<longrightarrow> s' = s)
           \<and> (\<forall>e. err = Some e \<longrightarrow>
                 logged s' = logged s @
                   [\<lparr>Logger_name = lg, Level = ErrorLevel, Message = ''internal handler error'',
                     Fields = [zap_Error e, zap_Object ''request'' req]\<rparr>])"
  using assms by (cases err) (simp_all add: Logger_def)

theorem logging_callback_only_logs_witness:
  "logger demo_wd = Some ''webdav''
   \<and> Logger demo_wd (demo_request ''PUT'' ''/x'') (Some EACCES) demo_world =
       Returns (demo_world\<lparr>logged :=
         [\<lparr>Logger_name = ''webdav'', Level = ErrorLevel, Message = ''internal handler error'',
           Fields = [zap_Error EACCES, zap_Object ''request'' (demo_request ''PUT'' ''/x'')]\<rparr>]\<rparr>)
   \<and> Logger demo_wd (demo_request ''PUT'' ''/x'') None demo_world = Returns demo_world"
proof -
  have a: "logger demo_wd = Some ''webdav''" by (simp add: demo_wd_def)
  from logging_callback_only_logs [OF a, of "demo_request ''PUT'' ''/x''" "Some EACCES" demo_world]
  obtain s' where s': "Logger demo_wd (demo_request ''PUT'' ''/x'') (Some EACCES) demo_world
      = Returns s'"
    "fs s' = fs demo_world" "heap s' = heap demo_world" "sent s' = sent demo_world"
    "logged s' = logged demo_world @
       [\<lparr>Logger_name = ''webdav'', Level = ErrorLevel, Message = ''internal handler error'',
         Fields = [zap_Error EACCES, zap_Object ''request'' (demo_request ''PUT'' ''/x'')]\<rparr>]"
    by auto
  have "s' = demo_world\<lparr>logged :=
         [\<lparr>Logger_name = ''webdav'', Level = ErrorLevel, Message = ''internal handler error'',
           Fields = [zap_Error EACCES, zap_Object ''request'' (demo_request ''PUT'' ''/x'')]\<rparr>]\<rparr>"
    using s'(2-5) by (cases s') (simp add: demo_world_def)
  moreover have "Logger demo_wd (demo_request ''PUT'' ''/x'') None demo_world = Returns demo_world"
    using logging_callback_only_logs [OF a, of "demo_request ''PUT'' ''/x''" None demo_world]
    by auto
  ultimately show ?thesis using a s'(1) by simp
qed

subsection \<open>C7: one lock system for the module\<close>

text \<open>
  C7. Provision returns nil, allocates one new lock system in its initial state
  (\<^verbatim>\<open>webdav.NewMemLS()\<close>) whatever the world held before, stores it in the module and
  writes nothing to the file system. For the provisioned module, every request: allocates
  and frees no lock system and leaves every other lock system as it was; behaves the same
  in two worlds that agree on the file system, the response, the log and the content of
  the module's lock system, and leaves them agreeing again; and the handler value that
  \<open>ServeHTTP\<close> builds starts on the current content of the module's lock system and
  stores what it leaves back into it. The last conjunct says what \<open>ServeHTTP\<close> itself
  does with that lock system, for every request that carries the replacer, in every world
  that holds the module's lock system: when \<^verbatim>\<open>MkdirAll\<close> fails the handler is not run
  and the store is left as it was; in every other case \<open>ServeHTTP\<close> is the run of the
  library handler, on the request or on its PROPFIND rewrite, started on the content of
  the lock system made by Provision, and the lock state that run leaves is written into
  that same lock system of the resulting world. So the lock state left by one request is
  the lock state the handler of the next one is started on, and a new Provision (a
  restart) starts from a fresh one.
\<close>

theorem lock_system_made_by_provision_is_shared:
  assumes "Provision lgn env wd0 s0 = (e0, wd, s1)"
  shows "e0 = None
     \<and> lockSystem wd = Some (length (heap s0))
     \<and> heap s1 = heap s0 @ [NewMemLS env]
     \<and> load (heap s1) (lockSystem wd) = Some (NewMemLS env)
     \<and> fs s1 = fs s0
     \<and> (\<forall>r nxt s e r' s'. ServeHTTP env wd r nxt s = Returns (e, r', s') \<longrightarrow>
           length (heap s') = length (heap s)
           \<and> (\<forall>i. i \<noteq> length (heap s0) \<longrightarrow> heap s' ! i = heap s ! i))
     \<and> (\<forall>r nxt s t. same_view (lockSystem wd) s t \<longrightarrow>
           (ServeHTTP env wd r nxt s = Panic \<and> ServeHTTP env wd r nxt t = Panic)
           \<or> (\<exists>e r' s' t'. ServeHTTP env wd r nxt s = Returns (e, r', s')
                 \<and> ServeHTTP env wd r nxt t = Returns (e, r', t')
                 \<and> same_view (lockSystem wd) s' t'))
     \<and> (\<forall>p rt w r s. length (heap s0) < length (heap s) \<longrightarrow>
           Handler_ServeHTTP env (wdHandler wd p rt) w r s =
             (case run env (wdHandler wd p rt) w
                     (webdav_ServeHTTP env p rt r (fs s) (Some (heap s ! length (heap s0)))) s of
                Panic \<Rightarrow> Panic
              | Returns res \<Rightarrow>
                  (case res of
                     ((f, l), s') \<Rightarrow>
                       Returns (s'\<lparr>fs := f,
                         heap := store (heap s') (Some (length (heap s0))) l\<rparr>))))
     \<and> (\<forall>r nxt s repl.
           Replacer r = Some repl \<and> length (heap s0) < length (heap s) \<longrightarrow>
           (if (Method r = ''PUT'' \<or> Method r = ''POST'')
               \<and> os_IsNotExist env (err_of (os_Stat env
                     (repl (Root wd) ''.'' @ path_Dir env (URL_Path r)) (fs s)))
               \<and> fst (os_MkdirAll env
                     (repl (Root wd) ''.'' @ path_Dir env (URL_Path r)) perm_0755 (fs s)) \<noteq> None
            then \<exists>e s'. ServeHTTP env wd r nxt s = Returns (Some e, r, s') \<and> heap s' = heap s
            else \<exists>r' f'.
               (r' = r
                  \<or> r' = r\<lparr>Method := ''PROPFIND'',
                         Header := (if Header_Get (Header r) ''Depth'' = ''''
                                    then Header_Add (Header r) ''Depth'' ''1''
                                    else Header r)\<rparr>)
               \<and> (f' = fs s
                    \<or> f' = snd (os_MkdirAll env
                         (repl (Root wd) ''.'' @ path_Dir env (URL_Path r)) perm_0755 (fs s)))
               \<and> ServeHTTP env wd r nxt s =
                   (case run env (wdHandler wd (repl (Prefix wd) '''') (repl (Root wd) ''.''))
                           (if Method r' = ''HEAD''
                            then emptyBodyResponseWriter ResponseWriter else ResponseWriter)
                           (webdav_ServeHTTP env (repl (Prefix wd) '''') (repl (Root wd) ''.'')
                              r' f' (Some (heap s ! length (heap s0))))
                           (s\<lparr>fs := f'\<rparr>) of
                      Panic \<Rightarrow> Panic
                    | Returns res \<Rightarrow>
                        (case res of
                           ((f, l), s') \<Rightarrow>
                             Returns (None, r',
                               s'\<lparr>fs := f,
                                  heap := store (heap s) (Some (length (heap s0))) l\<rparr>)))))"
proof -
  have e0: "e0 = None" and ls: "lockSystem wd = Some (length (heap s0))"
    and lg: "logger wd = Some lgn"
    and s1: "s1 = s0\<lparr>heap := heap s0 @ [NewMemLS env]\<rparr>"
    using assms by (auto simp: Provision_eq)
  have a: "heap s1 = heap s0 @ [NewMemLS env]" "fs s1 = fs s0"
    using s1 by simp_all
  have b: "load (heap s1) (lockSystem wd) = Some (NewMemLS env)"
    using a(1) ls by (simp add: load_def)
  have c: "\<forall>r (nxt :: 'n) s e r' s'.
        ServeHTTP env wd r nxt s = Returns (e, r', s') \<longrightarrow>
           length (heap s') = length (heap s)
           \<and> (\<forall>i. i \<noteq> length (heap s0) \<longrightarrow> heap s' ! i = heap s ! i)"
  proof (intro allI impI)
    fix r and nxt :: 'n and s e r' s'
    assume h: "ServeHTTP env wd r nxt s = Returns (e, r', s')"
    show "length (heap s') = length (heap s)
           \<and> (\<forall>i. i \<noteq> length (heap s0) \<longrightarrow> heap s' ! i = heap s ! i)"
      using ServeHTTP_frame [OF h] ls by simp
  qed
  have d: "\<forall>r (nxt :: 'n) s t. same_view (lockSystem wd) s t \<longrightarrow>
           (ServeHTTP env wd r nxt s = Panic \<and> ServeHTTP env wd r nxt t = Panic)
           \<or> (\<exists>e r' s' t'. ServeHTTP env wd r nxt s = Returns (e, r', s')
                 \<and> ServeHTTP env wd r nxt t = Returns (e, r', t')
                 \<and> same_view (lockSystem wd) s' t')"
    by (intro allI impI) (rule ServeHTTP_sim)
  have f: "\<forall>p rt w r s. length (heap s0) < length (heap s) \<longrightarrow>
           Handler_ServeHTTP env (wdHandler wd p rt) w r s =
             (case run env (wdHandler wd p rt) w
                     (webdav_ServeHTTP env p rt r (fs s) (Some (heap s ! length (heap s0)))) s of
                Panic \<Rightarrow> Panic
              | Returns res \<Rightarrow>
                  (case res of
                     ((f, l), s') \<Rightarrow>
                       Returns (s'\<lparr>fs := f,
                         heap := store (heap s') (Some (length (heap s0))) l\<rparr>)))"
    by (intro allI impI) (rule Handler_ServeHTTP_cell [OF ls])
  have g: "\<forall>r (nxt :: 'n) s repl.
           Replacer r = Some repl \<and> length (heap s0) < length (heap s) \<longrightarrow>
           (if (Method r = ''PUT'' \<or> Method r = ''POST'')
               \<and> os_IsNotExist env (err_of (os_Stat env
                     (repl (Root wd) ''.'' @ path_Dir env (URL_Path r)) (fs s)))
               \<and> fst (os_MkdirAll env
                     (repl (Root wd) ''.'' @ path_Dir env (URL_Path r)) perm_0755 (fs s)) \<noteq> None
            then \<exists>e s'. ServeHTTP env wd r nxt s = Returns (Some e, r, s') \<and> heap s' = heap s
            else \<exists>r' f'.
               (r' = r
                  \<or> r' = r\<lparr>Method := ''PROPFIND'',
                         Header := (if Header_Get (Header r) ''Depth'' = ''''
                                    then Header_Add (Header r) ''Depth'' ''1''
                                    else Header r)\<rparr>)
               \<and> (f' = fs s
                    \<or> f' = snd (os_MkdirAll env
                         (repl (Root wd) ''.'' @ path_Dir env (URL_Path r)) perm_0755 (fs s)))
               \<and> ServeHTTP env wd r nxt s =
                   (case run env (wdHandler wd (repl (Prefix wd) '''') (repl (Root wd) ''.''))
                           (if Method r' = ''HEAD''
                            then emptyBodyResponseWriter ResponseWriter else ResponseWriter)
                           (webdav_ServeHTTP env (repl (Prefix wd) '''') (repl (Root wd) ''.'')
                              r' f' (Some (heap s ! length (heap s0))))
                           (s\<lparr>fs := f'\<rparr>) of
                      Panic \<Rightarrow> Panic
                    | Returns res \<Rightarrow>
                        (case res of
                           ((f, l), s') \<Rightarrow>
                             Returns (None, r',
                               s'\<lparr>fs := f,
                                  heap := store (heap s) (Some (length (heap s0))) l\<rparr>))))"
    by (intro allI impI, elim conjE) (rule ServeHTTP_cell_or_failure [OF ls lg])
  show ?thesis
    by (intro conjI) (rule e0 ls a b c d f g)+
qed

text \<open>
  The example module is the result of provisioning. A LOCK on \<^verbatim>\<open>/a\<close> is granted and
  leaves the name in the module's lock system; a second request for the same LOCK, in
  the world the first one left (with a new response), is the run of the handler started
  on that lock state, and is refused with 423; a LOCK on another name is granted and
  added to it.
\<close>

theorem lock_system_made_by_provision_is_shared_witness:
  "Provision ''webdav'' demo_env
       \<lparr>Root = ''/srv'', Prefix = [], lockSystem = None, logger = None\<rparr>
       (demo_world\<lparr>heap := []\<rparr>) = (None, demo_wd, demo_world)
   \<and> lockSystem demo_wd = Some 0
   \<and> load (heap demo_world) (lockSystem demo_wd) = Some (NewMemLS demo_env)
   \<and> ServeHTTP demo_env demo_wd (demo_request ''LOCK'' ''/a'') () demo_world =
       Returns (None, demo_request ''LOCK'' ''/a'',
         demo_world\<lparr>heap := [[''/a'']], sent := [W_WriteHeader 200, W_Write ''<lockdiscovery/>'']\<rparr>)
   \<and> length (heap (demo_world\<lparr>heap := [[''/a'']],
         sent := [W_WriteHeader 200, W_Write ''<lockdiscovery/>'']\<rparr>)) = length (heap demo_world)
   \<and> (\<exists>r' f'.
         (r' = demo_request ''LOCK'' ''/a''
            \<or> r' = (demo_request ''LOCK'' ''/a'')
                 \<lparr>Method := ''PROPFIND'',
                  Header := (if Header_Get (Header (demo_request ''LOCK'' ''/a'')) ''Depth'' = ''''
                             then Header_Add (Header (demo_request ''LOCK'' ''/a'')) ''Depth'' ''1''
                             else Header (demo_request ''LOCK'' ''/a''))\<rparr>)
         \<and> (f' = fs demo_world
              \<or> f' = snd (os_MkdirAll demo_env (''/srv'' @ path_Dir demo_env ''/a'') perm_0755
                           (fs demo_world)))
         \<and> ServeHTTP demo_env demo_wd (demo_request ''LOCK'' ''/a'') ()
              (demo_world\<lparr>heap := [[''/a'']]\<rparr>) =
             (case run demo_env (wdHandler demo_wd [] ''/srv'')
                     (if Method r' = ''HEAD''
                      then emptyBodyResponseWriter ResponseWriter else ResponseWriter)
                     (webdav_ServeHTTP demo_env [] ''/srv'' r' f' (Some [''/a'']))
                     (demo_world\<lparr>heap := [[''/a'']], fs := f'\<rparr>) of
                Panic \<Rightarrow> Panic
              | Returns res \<Rightarrow>
                  (case res of
                     ((f, l), s') \<Rightarrow>
                       Returns (None, r', s'\<lparr>fs := f, heap := store [[''/a'']] (Some 0) l\<rparr>))))
   \<and> ServeHTTP demo_env demo_wd (demo_request ''LOCK'' ''/a'') ()
        (demo_world\<lparr>heap := [[''/a'']]\<rparr>) =
       Returns (None, demo_request ''LOCK'' ''/a'',
         demo_world\<lparr>heap := [[''/a'']], sent := [W_WriteHeader 423, W_Write ''Locked'']\<rparr>)
   \<and> ServeHTTP demo_env demo_wd (demo_request ''LOCK'' ''/b'') ()
        (demo_world\<lparr>heap := [[''/a'']]\<rparr>) =
       Returns (None, demo_request ''LOCK'' ''/b'',
         demo_world\<lparr>heap := [[''/b'', ''/a'']],
           sent := [W_WriteHeader 200, W_Write ''<lockdiscovery/>'']\<rparr>)"
proof -
  have p: "Provision ''webdav'' demo_env
       \<lparr>Root = ''/srv'', Prefix = [], lockSystem = None, logger = None\<rparr>
       (demo_world\<lparr>heap := []\<rparr>) = (None, demo_wd, demo_world)"
    by (simp add: Provision_def demo_defs Let_def)
  have l1: "ServeHTTP demo_env demo_wd (demo_request ''LOCK'' ''/a'') ()
              demo_world =
       Returns (None, demo_request ''LOCK'' ''/a'',
         demo_world\<lparr>heap := [[''/a'']], sent := [W_WriteHeader 200, W_Write ''<lockdiscovery/>'']\<rparr>)"
    by (simp add: demo_defs model_defs)
  have l2: "ServeHTTP demo_env demo_wd (demo_request ''LOCK'' ''/a'') ()
        (demo_world\<lparr>heap := [[''/a'']]\<rparr>) =
       Returns (None, demo_request ''LOCK'' ''/a'',
         demo_world\<lparr>heap := [[''/a'']], sent := [W_WriteHeader 423, W_Write ''Locked'']\<rparr>)"
    by (simp add: demo_defs model_defs)
  have l3: "ServeHTTP demo_env demo_wd (demo_request ''LOCK'' ''/b'') ()
        (demo_world\<lparr>heap := [[''/a'']]\<rparr>) =
       Returns (None, demo_request ''LOCK'' ''/b'',
         demo_world\<lparr>heap := [[''/b'', ''/a'']],
           sent := [W_WriteHeader 200, W_Write ''<lockdiscovery/>'']\<rparr>)"
    by (simp add: demo_defs model_defs)
  have rp: "Replacer (demo_request ''LOCK'' ''/a'') = Some (\<lambda>input empty. input)"
    by (simp add: demo_request_def)
  have len: "length (heap (demo_world\<lparr>heap := []\<rparr>))
               < length (heap (demo_world\<lparr>heap := [[''/a'']]\<rparr>))"
    by simp
  have nf: "\<not> ((Method (demo_request ''LOCK'' ''/a'') = ''PUT''
                 \<or> Method (demo_request ''LOCK'' ''/a'') = ''POST'')
               \<and> os_IsNotExist demo_env (err_of (os_Stat demo_env
                     (Root demo_wd @ path_Dir demo_env (URL_Path (demo_request ''LOCK'' ''/a'')))
                     (fs (demo_world\<lparr>heap := [[''/a'']]\<rparr>))))
               \<and> fst (os_MkdirAll demo_env
                     (Root demo_wd @ path_Dir demo_env (URL_Path (demo_request ''LOCK'' ''/a'')))
                     perm_0755 (fs (demo_world\<lparr>heap := [[''/a'']]\<rparr>))) \<noteq> None)"
    by (simp add: demo_request_def)
  have eqs:
    "Root demo_wd = ''/srv''" "Prefix demo_wd = []"
    "heap (demo_world\<lparr>heap := [[''/a'']]\<rparr>) = [[''/a'']]"
    "length (heap (demo_world\<lparr>heap := []\<rparr>)) = 0"
    "[[''/a'']] ! 0 = [''/a'']"
    "URL_Path (demo_request ''LOCK'' ''/a'') = ''/a''"
    "fs (demo_world\<lparr>heap := [[''/a'']]\<rparr>) = fs demo_world"
    by (simp_all add: demo_wd_def demo_request_def)
  note t = lock_system_made_by_provision_is_shared [OF p]
  have a: "lockSystem demo_wd = Some 0"
    using t [THEN conjunct2, THEN conjunct1] by simp
  have b: "load (heap demo_world) (lockSystem demo_wd) = Some (NewMemLS demo_env)"
    by (rule t [THEN conjunct2, THEN conjunct2, THEN conjunct2, THEN conjunct1])
  have c: "length (heap (demo_world\<lparr>heap := [[''/a'']],
         sent := [W_WriteHeader 200, W_Write ''<lockdiscovery/>'']\<rparr>)) = length (heap demo_world)"
    by (rule t [THEN conjunct2, THEN conjunct2, THEN conjunct2, THEN conjunct2, THEN conjunct2,
        THEN conjunct1, rule_format, OF l1, THEN conjunct1])
  note g = t [THEN conjunct2, THEN conjunct2, THEN conjunct2, THEN conjunct2, THEN conjunct2,
        THEN conjunct2, THEN conjunct2, THEN conjunct2, rule_format,
        of "demo_request ''LOCK'' ''/a''" "\<lambda>input empty. input"
           "demo_world\<lparr>heap := [[''/a'']]\<rparr>" "()",
        OF conjI [OF rp len], unfolded if_not_P [OF nf], unfolded eqs]
  show ?thesis
    by (intro conjI) (rule p a b l1 c g l2 l3)+
qed

subsection \<open>C8: exclusive and shared locks\<close>

lemma ancestor_comparable:
  "ancestor a p \<Longrightarrow> ancestor b p \<Longrightarrow> a = b \<or> ancestor a b \<or> ancestor b a"
proof (induction a p arbitrary: b rule: ancestor.induct)
  case (2 y ys)
  then show ?case by (cases b) simp_all
next
  case (4 x xs y ys)
  then show ?case by (cases b) auto
qed simp_all

lemma holders_overlap:
  assumes "holds_on l p" and "holds_on l' p"
  shows "holds_on l (root_path l') \<or> in_range (root_path l') (depth l') l"
proof -
  consider (eq) "root_path l = p" "root_path l' = p"
    | (l_up) "root_path l' = p" "depth l = Depth_Infinite" "ancestor (root_path l) p"
    | (l'_up) "root_path l = p" "depth l' = Depth_Infinite" "ancestor (root_path l') p"
    | (both) "depth l = Depth_Infinite" "ancestor (root_path l) p"
        "depth l' = Depth_Infinite" "ancestor (root_path l') p"
    using assms by (auto simp: holds_on_def)
  then show ?thesis
  proof cases
    case eq
    then show ?thesis by (simp add: holds_on_def)
  next
    case l_up
    then show ?thesis by (simp add: holds_on_def)
  next
    case l'_up
    then show ?thesis by (simp add: in_range_def)
  next
    case both
    from ancestor_comparable [OF both(2,4)] show ?thesis
      using both(1,3) by (auto simp: holds_on_def in_range_def)
  qed
qed

lemma compatible_later:
  "now \<le> now' \<Longrightarrow> compatible now ls \<Longrightarrow> compatible now' ls"
  by (induction ls) (auto simp: active_def)

lemma compatible_snoc:
  "compatible now (ls @ [l]) =
     (compatible now ls
      \<and> (\<forall>l' \<in> set ls. active now l' \<and> active now l \<longrightarrow>
            \<not> incompatible l' (root_path l) (depth l) (scope l)))"
  by (induction ls) auto

lemma compatible_filter: "compatible now ls \<Longrightarrow> compatible now (filter P ls)"
  by (induction ls) auto

lemma compatible_map:
  assumes "\<And>l. active now (f l) \<Longrightarrow> active now l"
    and "\<And>l. root_path (f l) = root_path l \<and> depth (f l) = depth l \<and> scope (f l) = scope l"
  shows "compatible now ls \<Longrightarrow> compatible now (map f ls)"
proof (induction ls)
  case Nil
  then show ?case by simp
next
  case (Cons l ls)
  have inc: "incompatible (f l) (root_path (f l')) (depth (f l')) (scope (f l'))
             = incompatible l (root_path l') (depth l') (scope l')" for l'
    using assms(2) [of l] assms(2) [of l']
    by (simp add: incompatible_def holds_on_def in_range_def)
  show ?case using Cons assms(1) by (auto simp: inc)
qed

lemma compatible_at_most_one:
  "compatible now ls \<Longrightarrow>
   length (filter (\<lambda>l. active now l \<and> scope l = Exclusive \<and> holds_on l p) ls) \<le> 1"
proof (induction ls)
  case Nil
  then show ?case by simp
next
  case (Cons l ls)
  show ?case
  proof (cases "active now l \<and> scope l = Exclusive \<and> holds_on l p")
    case False
    then show ?thesis using Cons by auto
  next
    case True
    have "\<not> (active now l' \<and> scope l' = Exclusive \<and> holds_on l' p)" if "l' \<in> set ls" for l'
    proof
      assume h: "active now l' \<and> scope l' = Exclusive \<and> holds_on l' p"
      have "holds_on l (root_path l') \<or> in_range (root_path l') (depth l') l"
        using True h by (intro holders_overlap [of l p l']) simp_all
      then have "incompatible l (root_path l') (depth l') (scope l')"
        using True by (simp add: incompatible_def)
      then show False using Cons.prems that True h by auto
    qed
    then have "filter (\<lambda>l. active now l \<and> scope l = Exclusive \<and> holds_on l p) ls = []"
      by (simp add: filter_empty_conv)
    then show ?thesis using True by simp
  qed
qed

lemma Create_compatible:
  "compatible now (locks t) \<Longrightarrow> compatible now (locks (snd (Create now p d sc ow timeout t)))"
  by (auto simp: Create_def compatible_snoc list_ex_iff)

lemma Refresh_compatible:
  assumes "compatible now (locks t)"
  shows "compatible now (locks (snd (Refresh now tok timeout t)))"
proof (cases "list_ex (\<lambda>l. active now l \<and> token l = tok) (locks t)")
  case False
  then show ?thesis using assms by (simp add: Refresh_def)
next
  case True
  have "compatible now
          (map (\<lambda>l. if active now l \<and> token l = tok then l\<lparr>expiry := now + timeout\<rparr> else l)
             (locks t))"
    using assms by (intro compatible_map) (auto split: if_splits)
  then show ?thesis using True by (simp add: Refresh_def)
qed

lemma Release_compatible:
  "compatible now (locks t) \<Longrightarrow> compatible now (locks (snd (Release now tok t)))"
  by (simp add: Release_def compatible_filter)

lemma apply_op_compatible:
  "compatible now (locks t) \<Longrightarrow> compatible now (locks (apply_op now op t))"
  by (cases op) (simp_all add: Create_compatible Refresh_compatible Release_compatible)

lemma run_ops_compatible:
  "sorted (map fst ops) \<Longrightarrow> \<forall>x \<in> set ops. t0 \<le> fst x \<and> fst x \<le> now \<Longrightarrow> t0 \<le> now \<Longrightarrow>
   compatible t0 (locks t) \<Longrightarrow> compatible now (locks (run_ops ops t))"
proof (induction ops arbitrary: t t0)
  case Nil
  then show ?case using compatible_later by simp
next
  case (Cons x ops)
  obtain t1 op where x: "x = (t1, op)" by (cases x)
  have le: "t0 \<le> t1" "t1 \<le> now" using Cons.prems(2) x by simp_all
  have "compatible t1 (locks t)" using le(1) Cons.prems(4) by (rule compatible_later)
  then have c: "compatible t1 (locks (apply_op t1 op t))" by (rule apply_op_compatible)
  have s: "sorted (map fst ops)" using Cons.prems(1) by simp
  have b: "\<forall>y \<in> set ops. t1 \<le> fst y \<and> fst y \<le> now"
    using Cons.prems(1,2) x by auto
  show ?case using Cons.IH [OF s b le(2) c] x by simp
qed

lemma Create_shared:
  assumes "\<forall>l \<in> set (locks t). active now l \<longrightarrow> scope l = Shared"
  shows "Create now q d Shared ow timeout t =
           (Inr (next_token t),
            t\<lparr>locks := locks t @
                  [\<lparr>token = next_token t, root_path = q, depth = d, scope = Shared, owner = ow,
                    expiry = now + timeout\<rparr>],
              next_token := Suc (next_token t)\<rparr>)"
proof -
  have "\<not> list_ex (\<lambda>l. active now l \<and> incompatible l q d Shared) (locks t)"
    using assms by (auto simp: list_ex_iff incompatible_def)
  then show ?thesis by (simp add: Create_def)
qed

text \<open>
  C8, for the Lock Manager of the specification. After any sequence of \<^verbatim>\<open>Create\<close>,
  \<^verbatim>\<open>Refresh\<close> and \<^verbatim>\<open>Release\<close> calls made at non-decreasing clock readings on the
  empty table, and at any time from the last call on, at most one exclusive lock holds on
  any path. In a table whose active locks are all shared, creating a shared lock on any
  path succeeds, and the new lock holds on the path together with the locks that held on
  it before: shared locks on the same path coexist.
\<close>

theorem at_most_one_exclusive_lock_per_path:
  assumes "sorted (map fst ops)" and "\<forall>x \<in> set ops. fst x \<le> now"
  shows "length (exclusive_holders now (run_ops ops empty_table) p) \<le> 1
     \<and> ((\<forall>l \<in> set (locks t). active now l \<longrightarrow> scope l = Shared) \<longrightarrow>
          fst (Create now q d Shared ow timeout t) = Inr (next_token t)
          \<and> holders now (snd (Create now q d Shared ow timeout t)) q =
              holders now t q @
                [\<lparr>token = next_token t, root_path = q, depth = d, scope = Shared, owner = ow,
                  expiry = now + timeout\<rparr>])"
proof -
  have "compatible 0 (locks empty_table)" by (simp add: empty_table_def)
  then have "compatible now (locks (run_ops ops empty_table))"
    using assms by (intro run_ops_compatible [of ops 0 now]) simp_all
  then have a: "length (exclusive_holders now (run_ops ops empty_table) p) \<le> 1"
    unfolding exclusive_holders_def by (rule compatible_at_most_one)
  have b: "fst (Create now q d Shared ow timeout t) = Inr (next_token t)
          \<and> holders now (snd (Create now q d Shared ow timeout t)) q =
              holders now t q @
                [\<lparr>token = next_token t, root_path = q, depth = d, scope = Shared, owner = ow,
                  expiry = now + timeout\<rparr>]"
    if "\<forall>l \<in> set (locks t). active now l \<longrightarrow> scope l = Shared"
    by (simp add: Create_shared [OF that] holders_def active_def holds_on_def)
  show ?thesis using a b by blast
qed

text \<open>
  An exclusive lock of infinite depth on \<^verbatim>\<open>/a\<close>, a refused exclusive lock on
  \<^verbatim>\<open>/a/b\<close>, and two shared locks on \<^verbatim>\<open>/c\<close>.
\<close>

theorem at_most_one_exclusive_lock_per_path_witness:
  "sorted (map fst demo_ops)
   \<and> list_all (\<lambda>x. fst x \<le> 3) demo_ops
   \<and> run_ops demo_ops empty_table =
       \<lparr>locks = [\<lparr>token = 0, root_path = [''a''], depth = Depth_Infinite, scope = Exclusive,
                   owner = ''alice'', expiry = 10\<rparr>,
                 \<lparr>token = 1, root_path = [''c''], depth = Depth_Zero, scope = Shared,
                   owner = ''carol'', expiry = 12\<rparr>],
        next_token = 2\<rparr>
   \<and> length (exclusive_holders 3 (run_ops demo_ops empty_table) [''a'', ''b'']) \<le> 1
   \<and> fst (Create 3 [''c''] Depth_Zero Shared ''dave'' 10
            \<lparr>locks = [\<lparr>token = 1, root_path = [''c''], depth = Depth_Zero, scope = Shared,
                        owner = ''carol'', expiry = 12\<rparr>], next_token = 2\<rparr>) = Inr 2
   \<and> holders 3 (snd (Create 3 [''c''] Depth_Zero Shared ''dave'' 10
            \<lparr>locks = [\<lparr>token = 1, root_path = [''c''], depth = Depth_Zero, scope = Shared,
                        owner = ''carol'', expiry = 12\<rparr>], next_token = 2\<rparr>)) [''c''] =
       [\<lparr>token = 1, root_path = [''c''], depth = Depth_Zero, scope = Shared,
          owner = ''carol'', expiry = 12\<rparr>,
        \<lparr>token = 2, root_path = [''c''], depth = Depth_Zero, scope = Shared,
          owner = ''dave'', expiry = 13\<rparr>]"
proof -
  let ?t = "\<lparr>locks = [\<lparr>token = 1, root_path = [''c''], depth = Depth_Zero, scope = Shared,
                        owner = ''carol'', expiry = 12\<rparr>], next_token = 2\<rparr>"
  have s: "sorted (map fst demo_ops)" by (simp add: demo_ops_def)
  have b: "\<forall>x \<in> set demo_ops. fst x \<le> 3" by (simp add: demo_ops_def)
  have b': "list_all (\<lambda>x. fst x \<le> 3) demo_ops" by (simp add: demo_ops_def)
  have r: "run_ops demo_ops empty_table =
       \<lparr>locks = [\<lparr>token = 0, root_path = [''a''], depth = Depth_Infinite, scope = Exclusive,
                   owner = ''alice'', expiry = 10\<rparr>,
                 \<lparr>token = 1, root_path = [''c''], depth = Depth_Zero, scope = Shared,
                   owner = ''carol'', expiry = 12\<rparr>],
        next_token = 2\<rparr>"
    by (simp add: demo_ops_def empty_table_def Create_def incompatible_def active_def
        holds_on_def in_range_def)
  have sh: "\<forall>l \<in> set (locks ?t). active 3 l \<longrightarrow> scope l = Shared" by simp
  note t = at_most_one_exclusive_lock_per_path [OF s b, of "[''a'', ''b'']" ?t "[''c'']" Depth_Zero "''dave''" 10]
  have e: "length (exclusive_holders 3 (run_ops demo_ops empty_table) [''a'', ''b'']) \<le> 1"
    by (rule t [THEN conjunct1])
  have h: "fst (Create 3 [''c''] Depth_Zero Shared ''dave'' 10 ?t) = Inr 2
     \<and> holders 3 (snd (Create 3 [''c''] Depth_Zero Shared ''dave'' 10 ?t)) [''c''] =
       [\<lparr>token = 1, root_path = [''c''], depth = Depth_Zero, scope = Shared,
          owner = ''carol'', expiry = 12\<rparr>,
        \<lparr>token = 2, root_path = [''c''], depth = Depth_Zero, scope = Shared,
          owner = ''dave'', expiry = 13\<rparr>]"
    using t [THEN conjunct2, THEN mp, OF sh] by (simp add: holders_def active_def holds_on_def)
  show ?thesis
    by (intro conjI) (rule s b' r e h [THEN conjunct1] h [THEN conjunct2])+
qed

subsection \<open>C9: the next handler and the returned error\<close>

text \<open>
  C9. For a request that carries the host's replacer, on a provisioned module,
  \<open>ServeHTTP\<close> returns; the error it returns is nil except for a PUT or POST whose
  parent directory does not exist, where it is what \<^verbatim>\<open>os.MkdirAll\<close> returned (nil
  when the directories were made); and the result is the same whatever the next handler is:
  it is never invoked.
\<close>

theorem ServeHTTP_ends_the_chain:
  assumes "Replacer r = Some repl" and "logger wd = Some lg"
  shows "(\<exists>r' s'. ServeHTTP env wd r nxt s =
            Returns
              (if (Method r = ''PUT'' \<or> Method r = ''POST'')
                  \<and> os_IsNotExist env (err_of (os_Stat env
                        (repl (Root wd) ''.'' @ path_Dir env (URL_Path r)) (fs s)))
               then fst (os_MkdirAll env
                        (repl (Root wd) ''.'' @ path_Dir env (URL_Path r)) perm_0755 (fs s))
               else None,
               r', s'))
         \<and> ServeHTTP env wd r nxt' s = ServeHTTP env wd r nxt s"
proof -
  let ?h = "wdHandler wd (repl (Prefix wd) '''') (repl (Root wd) ''.'') :: ('a, 'b, 'c) Handler"
  let ?p = "repl (Root wd) ''.'' @ path_Dir env (URL_Path r)"
  have d: "\<exists>r' s'. delegate env ?h ResponseWriter q t = Returns (None, r', s')" for q t
    by (rule delegate_returns [OF assms(2)])
  have nx: "ServeHTTP env wd r nxt' s = ServeHTTP env wd r nxt s"
    by (simp add: ServeHTTP_def)
  consider (gh) "Method r = ''GET'' \<or> Method r = ''HEAD''"
    | (pp) "Method r = ''PUT'' \<or> Method r = ''POST''"
    | (ot) "Method r \<noteq> ''GET''" "Method r \<noteq> ''HEAD''" "Method r \<noteq> ''PUT''" "Method r \<noteq> ''POST''"
    by blast
  then have "\<exists>r' s'. ServeHTTP env wd r nxt s =
            Returns
              (if (Method r = ''PUT'' \<or> Method r = ''POST'')
                  \<and> os_IsNotExist env (err_of (os_Stat env ?p (fs s)))
               then fst (os_MkdirAll env ?p perm_0755 (fs s))
               else None,
               r', s')"
  proof cases
    case gh
    then have np: "\<not> (Method r = ''PUT'' \<or> Method r = ''POST'')" by auto
    show ?thesis
      using d np by (simp add: ServeHTTP_get_head [OF assms(1) gh] Let_def split: sum.splits)
  next
    case pp
    show ?thesis
    proof (cases "os_IsNotExist env (err_of (os_Stat env ?p (fs s)))")
      case False
      then show ?thesis
        using d pp by (simp add: ServeHTTP_put_post [OF assms(1) pp] Let_def)
    next
      case True
      obtain e f where mk: "os_MkdirAll env ?p perm_0755 (fs s) = (e, f)"
        by (cases "os_MkdirAll env ?p perm_0755 (fs s)")
      show ?thesis
        using True d pp mk assms(2)
        by (cases e) (simp_all add: ServeHTTP_put_post [OF assms(1) pp] Let_def)
    qed
  next
    case ot
    then show ?thesis
      using d by (simp add: ServeHTTP_other [OF assms(1) ot])
  qed
  then show ?thesis using nx by blast
qed

theorem ServeHTTP_ends_the_chain_witness:
  "Replacer (demo_request ''DELETE'' ''/a/b.txt'') = Some (\<lambda>input empty. input)
   \<and> logger demo_wd = Some ''webdav''
   \<and> (\<exists>r' s'. ServeHTTP demo_env demo_wd (demo_request ''DELETE'' ''/a/b.txt'')
                 () demo_world = Returns (None, r', s'))
   \<and> ServeHTTP demo_env demo_wd (demo_request ''DELETE'' ''/a/b.txt'') True
        demo_world =
      ServeHTTP demo_env demo_wd (demo_request ''DELETE'' ''/a/b.txt'') ()
        demo_world"
proof -
  have a: "Replacer (demo_request ''DELETE'' ''/a/b.txt'') = Some (\<lambda>input empty. input)"
    by (simp add: demo_request_def)
  have b: "logger demo_wd = Some ''webdav''" by (simp add: demo_wd_def)
  show ?thesis
    using ServeHTTP_ends_the_chain [OF a b, where env = demo_env and nxt = "()" and s = demo_world and nxt' = True] a b
    by (simp add: demo_request_def)
qed

subsection \<open>C10: PUT and POST when the parent exists or cannot be examined\<close>

text \<open>
  C10. For every PUT or POST request, when \<^verbatim>\<open>os.Stat\<close> of the parent path succeeds
  (directory or regular file) or fails with an error that is not a not-exist error,
  \<open>ServeHTTP\<close> delegates the unchanged request to the WebDAV handler on the unchanged
  world, and the result is the same whatever \<^verbatim>\<open>os.MkdirAll\<close> would do: it is not
  called.
\<close>

theorem put_post_existing_parent_untouched:
  assumes "Replacer r = Some repl"
    and "Method r = ''PUT'' \<or> Method r = ''POST''"
    and "os_Stat env (repl (Root wd) ''.'' @ path_Dir env (URL_Path r)) (fs s) = Inr info
         \<or> (os_Stat env (repl (Root wd) ''.'' @ path_Dir env (URL_Path r)) (fs s) = Inl e
            \<and> \<not> is_ErrNotExist env e)"
  shows "ServeHTTP env wd r nxt s =
           (case Handler_ServeHTTP env
                   (wdHandler wd (repl (Prefix wd) '''') (repl (Root wd) ''.'')) ResponseWriter r s of
              Panic \<Rightarrow> Panic
            | Returns s' \<Rightarrow> Returns (None, r, s'))
         \<and> ServeHTTP (env\<lparr>os_MkdirAll := mk\<rparr>) wd r nxt s = ServeHTTP env wd r nxt s"
proof -
  let ?p = "repl (Root wd) ''.'' @ path_Dir env (URL_Path r)"
  let ?h = "wdHandler wd (repl (Prefix wd) '''') (repl (Root wd) ''.'')"
  have ne: "\<not> os_IsNotExist env (err_of (os_Stat env ?p (fs s)))"
    using assms(3) by (auto simp: os_IsNotExist_def err_of_def)
  have nh: "Method r \<noteq> ''HEAD''" using assms(2) by auto
  have d: "ServeHTTP env wd r nxt s = delegate env ?h ResponseWriter r s"
    using ne by (simp add: ServeHTTP_put_post [OF assms(1,2)] Let_def)
  have ne': "\<not> os_IsNotExist (env\<lparr>os_MkdirAll := mk\<rparr>)
      (err_of (os_Stat (env\<lparr>os_MkdirAll := mk\<rparr>)
         (repl (Root wd) ''.'' @ path_Dir (env\<lparr>os_MkdirAll := mk\<rparr>) (URL_Path r)) (fs s)))"
    using ne by (simp add: os_IsNotExist_def split: option.splits)
  have d': "ServeHTTP (env\<lparr>os_MkdirAll := mk\<rparr>) wd r nxt s =
            delegate (env\<lparr>os_MkdirAll := mk\<rparr>) ?h ResponseWriter r s"
    using ne' by (simp add: ServeHTTP_put_post [OF assms(1,2)] Let_def)
  have e: "delegate (env\<lparr>os_MkdirAll := mk\<rparr>) ?h ResponseWriter r s
           = delegate env ?h ResponseWriter r s"
    by (rule delegate_env) simp_all
  show ?thesis
    unfolding d d' e by (simp add: delegate_not_HEAD [OF nh])
qed

text \<open>PUT \<^verbatim>\<open>/a/c.txt\<close> on the example, where \<^verbatim>\<open>/srv/a\<close> is a directory.\<close>

theorem put_post_existing_parent_untouched_witness:
  "Replacer (demo_request ''PUT'' ''/a/c.txt'') = Some (\<lambda>input empty. input)
   \<and> os_Stat demo_env (''/srv'' @ path_Dir demo_env ''/a/c.txt'') (fs demo_world)
       = Inr \<lparr>IsDir = True\<rparr>
   \<and> ServeHTTP demo_env demo_wd (demo_request ''PUT'' ''/a/c.txt'') () demo_world =
       (case Handler_ServeHTTP demo_env (wdHandler demo_wd [] ''/srv'') ResponseWriter
               (demo_request ''PUT'' ''/a/c.txt'') demo_world of
          Panic \<Rightarrow> Panic
        | Returns s' \<Rightarrow> Returns (None, demo_request ''PUT'' ''/a/c.txt'', s'))
   \<and> ServeHTTP (demo_env\<lparr>os_MkdirAll := (\<lambda>p m f. (Some EACCES, []))\<rparr>) demo_wd
        (demo_request ''PUT'' ''/a/c.txt'') () demo_world =
      ServeHTTP demo_env demo_wd (demo_request ''PUT'' ''/a/c.txt'') () demo_world"
proof -
  have a: "Replacer (demo_request ''PUT'' ''/a/c.txt'') = Some (\<lambda>input empty. input)"
    by (simp add: demo_request_def)
  have b: "Method (demo_request ''PUT'' ''/a/c.txt'') = ''PUT''
           \<or> Method (demo_request ''PUT'' ''/a/c.txt'') = ''POST''"
    by (simp add: demo_request_def)
  have c: "os_Stat demo_env ((\<lambda>input empty. input) (Root demo_wd) ''.''
             @ path_Dir demo_env (URL_Path (demo_request ''PUT'' ''/a/c.txt''))) (fs demo_world)
           = Inr \<lparr>IsDir = True\<rparr>"
    by (simp add: demo_defs)
  then have c': "os_Stat demo_env ((\<lambda>input empty. input) (Root demo_wd) ''.''
             @ path_Dir demo_env (URL_Path (demo_request ''PUT'' ''/a/c.txt''))) (fs demo_world)
           = Inr \<lparr>IsDir = True\<rparr>
         \<or> (os_Stat demo_env ((\<lambda>input empty. input) (Root demo_wd) ''.''
             @ path_Dir demo_env (URL_Path (demo_request ''PUT'' ''/a/c.txt''))) (fs demo_world)
           = Inl ENOTDIR \<and> \<not> is_ErrNotExist demo_env ENOTDIR)"
    by blast
  have d: "os_Stat demo_env (''/srv'' @ path_Dir demo_env ''/a/c.txt'') (fs demo_world)
       = Inr \<lparr>IsDir = True\<rparr>"
    by (simp add: demo_defs)
  show ?thesis
    using put_post_existing_parent_untouched [OF a b c', where nxt = "()" and mk =
        "\<lambda>p m f. (Some EACCES, [])"] a d
    by (simp add: demo_wd_def)
qed

end
